theory Spec2Isabelle
  imports Complex_Main "HOL-Library.Word" "HOL-Library.Sublist"
begin

unbundle bit_operations_syntax

chapter \<open>The voice pipeline of the skincare assistant\<close>

text \<open>
  A shallow embedding of the live voice pipeline: the retry wrapper and the PCM
  codec of \<^verbatim>\<open>src/services/geminiService.ts\<close>, the system prompt assembled by
  \<^verbatim>\<open>startLiveSession\<close>, and the microphone, playback and transcript handlers of the
  chat screen component (\<^verbatim>\<open>src/unnamed/part_006\<close>).

  Conventions. A JavaScript exception is a value of \<open>js_error\<close>. A synchronous function
  that can throw returns \<open>js_error + 'a\<close>; an event handler returns the state it
  leaves behind together with the exception that escaped it, if any, because the
  mutations made before the throw stay in place. React state, refs and the observable
  effects on the host (frames sent, nodes stopped, console output) are fields of one
  record that every handler takes and returns. A closure created during a render sees
  the state constants of that render, not later values; the values a closure captured
  are passed to it explicitly as a \<open>Render\<close> record.
\<close>

section \<open>The model\<close>

subsection \<open>JavaScript values\<close>

datatype js_error =
  RangeError | NotSupportedError | InvalidCharacterError | TypeError | InvalidStateError

text \<open>
  A JavaScript number as the typed arrays of the codec see it. Every finite float is a
  real number; the codec only multiplies a 32-bit float by \<open>32768\<close> and divides a
  16-bit integer by \<open>32768\<close>, both exact in double precision, so the finite case is
  modelled by exact real arithmetic.
\<close>

datatype js_number = Num real | NaN | PosInfinity | NegInfinity

type_synonym Uint8Array = "8 word list"
type_synonym Int16Array = "16 word list"
type_synonym Float32Array = "js_number list"

text \<open>Truthiness of a string: only the empty string is falsy.\<close>

definition truthy :: "string \<Rightarrow> bool" where
  "truthy s = (s \<noteq> [])"

text \<open>\<^verbatim>\<open>a || b\<close> on strings.\<close>

definition or_else :: "string \<Rightarrow> string \<Rightarrow> string" where
  "or_else a b = (if truthy a then a else b)"

text \<open>\<^verbatim>\<open>String.prototype.includes\<close>.\<close>

fun str_includes :: "string \<Rightarrow> string \<Rightarrow> bool" where
  "str_includes [] t = (t = [])"
| "str_includes (c # cs) t = (prefix t (c # cs) \<or> str_includes cs t)"

text \<open>\<^verbatim>\<open>Array.prototype.join\<close> on an array of strings.\<close>

fun join :: "string \<Rightarrow> string list \<Rightarrow> string" where
  "join sep [] = []"
| "join sep [x] = x"
| "join sep (x # y # zs) = x @ sep @ join sep (y # zs)"

text \<open>
  Case folding of a regular expression with the \<^verbatim>\<open>i\<close> flag and without the
  \<^verbatim>\<open>u\<close> flag: a character outside ASCII never matches an ASCII letter, so only
  \<^verbatim>\<open>A\<close> to \<^verbatim>\<open>Z\<close> fold.
\<close>

definition toLowerASCII :: "char \<Rightarrow> char" where
  "toLowerASCII c =
     (if 65 \<le> (of_char c :: nat) \<and> (of_char c :: nat) \<le> 90
      then char_of ((of_char c :: nat) + 32) else c)"

text \<open>Truncation towards zero, the integer part taken by every \<^verbatim>\<open>ToInt\<close> conversion.\<close>

definition trunc :: "real \<Rightarrow> int" where
  "trunc x = (if x < 0 then \<lceil>x\<rceil> else \<lfloor>x\<rfloor>)"

subsection \<open>Double-precision arithmetic\<close>

text \<open>
  The playback clock is advanced with \<^verbatim>\<open>+=\<close> and the duration of an audio buffer is
  a quotient. Neither is exact: the result is the IEEE 754 double nearest to the exact
  value, a tie going to the double whose last digit is even. A finite double is
  represented by the real number it denotes.

  The binary exponent of a non-zero number, the \<open>e\<close> with
  \<open>2 powi e \<le> \<bar>x\<bar> < 2 powi (e + 1)\<close>:
\<close>

function exponent :: "real \<Rightarrow> int" where
  "exponent x =
     (if x = 0 then 0
      else if 2 \<le> \<bar>x\<bar> then exponent (x / 2) + 1
      else if \<bar>x\<bar> < 1 then exponent (2 * x) - 1
      else 0)"
  by pat_completeness auto
termination
proof (relation "measure (\<lambda>x. nat \<bar>\<lfloor>log 2 \<bar>x\<bar>\<rfloor>\<bar>)", goal_cases)
  case 1
  show ?case by simp
next
  case (2 x)
  define k where "k = \<lfloor>log 2 \<bar>x\<bar>\<rfloor>"
  from 2 have "log 2 \<bar>x / 2\<bar> = log 2 \<bar>x\<bar> - 1" "1 \<le> log 2 \<bar>x\<bar>"
    by (simp_all add: log_divide le_log_iff)
  then have "\<lfloor>log 2 \<bar>x / 2\<bar>\<rfloor> = k - 1" "1 \<le> k"
    by (simp_all add: k_def)
  then have "nat \<bar>\<lfloor>log 2 \<bar>x / 2\<bar>\<rfloor>\<bar> < nat \<bar>k\<bar>" by simp
  then show ?case by (simp only: in_measure k_def)
next
  case (3 x)
  define k where "k = \<lfloor>log 2 \<bar>x\<bar>\<rfloor>"
  from 3 have "log 2 \<bar>2 * x\<bar> = log 2 \<bar>x\<bar> + 1" "log 2 \<bar>x\<bar> < 0"
    by (simp_all add: log_mult abs_mult)
  then have "\<lfloor>log 2 \<bar>2 * x\<bar>\<rfloor> = k + 1" "k < 0"
    by (simp_all add: k_def)
  then have "nat \<bar>\<lfloor>log 2 \<bar>2 * x\<bar>\<rfloor>\<bar> < nat \<bar>k\<bar>" by simp
  then show ?case by (simp only: in_measure k_def)
qed

declare exponent.simps [simp del]

text \<open>The nearest integer, a tie going to the even one.\<close>

definition round_ties_even :: "real \<Rightarrow> int" where
  "round_ties_even y =
     (let n = \<lfloor>y\<rfloor>; r = y - of_int n in
      if r < 1 / 2 then n else if 1 / 2 < r then n + 1 else if even n then n else n + 1)"

text \<open>
  Doubles have 53 significant binary digits, so those with the exponent of \<open>x\<close> are
  the multiples of \<open>2 powi (exponent x - 52)\<close>; below the smallest normal number,
  whose exponent is \<open>- 1022\<close>, the spacing stays that of the subnormal numbers.
\<close>

definition quantum :: "real \<Rightarrow> int" where
  "quantum x = max (exponent x) (- 1022) - 52"

definition nearest_multiple :: "int \<Rightarrow> real \<Rightarrow> real" where
  "nearest_multiple q x = of_int (round_ties_even (x / 2 powi q)) * 2 powi q"

definition binary64 :: "real \<Rightarrow> real" where
  "binary64 x = nearest_multiple (quantum x) x"

text \<open>
  \<^verbatim>\<open>a + b\<close> and \<^verbatim>\<open>a / b\<close> on numbers. The largest double is \<open>MAX_VALUE\<close>; a result
  that rounds beyond it would be \<^verbatim>\<open>Infinity\<close>, which a real number cannot say. The
  handlers never get there: the clock is a current time of the audio context plus
  durations of buffers, and such a sum stays a finite double (\<open>schedule_audio_finite\<close>
  below).
\<close>

definition js_plus :: "real \<Rightarrow> real \<Rightarrow> real" where
  "js_plus a b = binary64 (a + b)"

definition js_divide :: "real \<Rightarrow> real \<Rightarrow> real" where
  "js_divide a b = binary64 (a / b)"

definition MAX_VALUE :: real where
  "MAX_VALUE = (2 ^ 53 - 1) * 2 powi 971"

subsection \<open>Retry with backoff (\<^verbatim>\<open>isRateLimitError\<close>, \<^verbatim>\<open>withRetry\<close>)\<close>

text \<open>
  What a \<^verbatim>\<open>catch\<close> clause receives: \<^verbatim>\<open>undefined\<close>/\<^verbatim>\<open>null\<close>, or an
  object of which the code reads \<^verbatim>\<open>status\<close>, \<^verbatim>\<open>httpStatus\<close> and \<^verbatim>\<open>message\<close>
  (a string when present).
\<close>

datatype thrown =
  Undefined
| ErrorObj (err_status: "string option") (err_httpStatus: "int option") (err_message: "string option")

text \<open>\<^verbatim>\<open>/rate limit/i.test(message)\<close>.\<close>

definition rate_limit_regex_test :: "string \<Rightarrow> bool" where
  "rate_limit_regex_test s = str_includes (map toLowerASCII s) ''rate limit''"

fun isRateLimitError :: "thrown \<Rightarrow> bool" where
  "isRateLimitError Undefined = False"
| "isRateLimitError (ErrorObj st hs msg) =
     (if st = Some ''RESOURCE_EXHAUSTED'' \<or> hs = Some 429 then True
      else (case msg of
              None \<Rightarrow> False
            | Some m \<Rightarrow>
                if truthy m \<and> (str_includes m ''429'' \<or> rate_limit_regex_test m) then True
                else False))"

definition MAX_RETRIES :: nat where
  "MAX_RETRIES = 5"

text \<open>The error of the final \<^verbatim>\<open>throw\<close> when \<^verbatim>\<open>lastError\<close> is still \<^verbatim>\<open>null\<close>.\<close>

definition no_error_captured :: thrown where
  "no_error_captured =
     ErrorObj None None (Some ''Max retries reached, but no error was captured.'')"

text \<open>
  The \<^verbatim>\<open>for\<close> loop of \<^verbatim>\<open>withRetry\<close>. The wrapped call is effectful: it takes the
  state of the world \<open>w\<close> and returns its outcome (\<open>Inl\<close> a rejection, \<open>Inr\<close> the
  resolved value) with the world it leaves. The backoff delay only waits, so it has no
  counterpart here.
\<close>

function withRetry_loop ::
  "('w \<Rightarrow> (thrown + 'a) \<times> 'w) \<Rightarrow> nat \<Rightarrow> thrown option \<Rightarrow> 'w \<Rightarrow> (thrown + 'a) \<times> 'w" where
  "withRetry_loop apiCall attempt lastError w =
     (if attempt < MAX_RETRIES then
        (case apiCall w of
           (Inr v, w') \<Rightarrow> (Inr v, w')
         | (Inl e, w') \<Rightarrow>
             if isRateLimitError e then withRetry_loop apiCall (attempt + 1) (Some e) w'
             else (Inl e, w'))
      else (Inl (case lastError of Some e \<Rightarrow> e | None \<Rightarrow> no_error_captured), w))"
  by pat_completeness auto
termination
  by (relation "measure (\<lambda>(apiCall, attempt, lastError, w). MAX_RETRIES - attempt)") auto

declare withRetry_loop.simps [simp del]

definition withRetry :: "('w \<Rightarrow> (thrown + 'a) \<times> 'w) \<Rightarrow> 'w \<Rightarrow> (thrown + 'a) \<times> 'w" where
  "withRetry apiCall w = withRetry_loop apiCall 0 None w"

text \<open>
  Vocabulary for statements about the calls made: the world after \<open>k\<close> invocations of
  the wrapped call, the outcome of invocation number \<open>k\<close> (counted from 0), and whether
  an outcome is a rate-limited failure.
\<close>

definition world_after :: "('w \<Rightarrow> (thrown + 'a) \<times> 'w) \<Rightarrow> nat \<Rightarrow> 'w \<Rightarrow> 'w" where
  "world_after apiCall k w = ((\<lambda>x. snd (apiCall x)) ^^ k) w"

definition outcome :: "('w \<Rightarrow> (thrown + 'a) \<times> 'w) \<Rightarrow> nat \<Rightarrow> 'w \<Rightarrow> thrown + 'a" where
  "outcome apiCall k w = fst (apiCall (world_after apiCall k w))"

fun rate_limited :: "thrown + 'a \<Rightarrow> bool" where
  "rate_limited (Inl e) = isRateLimitError e"
| "rate_limited (Inr v) = False"

subsection \<open>The host's base64 primitives (\<^verbatim>\<open>btoa\<close>, \<^verbatim>\<open>atob\<close>)\<close>

text \<open>
  \<^verbatim>\<open>btoa\<close> and \<^verbatim>\<open>atob\<close> belong to the browser, not to the repository. They are
  modelled after their standard: RFC 4648 encoding with padding, and the forgiving
  decoder of the HTML standard (ASCII whitespace is skipped, padding is optional, a
  length of 1 modulo 4 or a character outside the alphabet is an
  \<^verbatim>\<open>InvalidCharacterError\<close>). A binary string is a \<open>string\<close>: every \<open>char\<close> is
  one byte, which is the only kind of string \<^verbatim>\<open>encode\<close> builds and \<^verbatim>\<open>atob\<close>
  returns.
\<close>

definition b64_alphabet :: string where
  "b64_alphabet = ''ABCDEFGHIJKLMNOPQRSTUVWXYZabcdefghijklmnopqrstuvwxyz0123456789+/''"

definition b64_char :: "nat \<Rightarrow> char" where
  "b64_char n = b64_alphabet ! n"

definition b64_index :: "char \<Rightarrow> nat option" where
  "b64_index c =
     (if c \<in> set b64_alphabet then Some (length (takeWhile (\<lambda>x. x \<noteq> c) b64_alphabet))
      else None)"

fun btoa_bytes :: "nat list \<Rightarrow> string" where
  "btoa_bytes (a # b # c # rest) =
     b64_char (a div 4) # b64_char ((a mod 4) * 16 + b div 16) #
     b64_char ((b mod 16) * 4 + c div 64) # b64_char (c mod 64) # btoa_bytes rest"
| "btoa_bytes [a, b] =
     [b64_char (a div 4), b64_char ((a mod 4) * 16 + b div 16), b64_char ((b mod 16) * 4),
      CHR ''='']"
| "btoa_bytes [a] = [b64_char (a div 4), b64_char ((a mod 4) * 16), CHR ''='', CHR ''='']"
| "btoa_bytes [] = []"

definition btoa :: "string \<Rightarrow> string" where
  "btoa s = btoa_bytes (map of_char s)"

definition ascii_whitespace :: "char \<Rightarrow> bool" where
  "ascii_whitespace c = ((of_char c :: nat) \<in> {9, 10, 12, 13, 32})"

text \<open>If the length is a multiple of 4, one or two trailing \<^verbatim>\<open>=\<close> are removed.\<close>

definition strip_padding :: "string \<Rightarrow> string" where
  "strip_padding s =
     (if length s mod 4 = 0 \<and> s \<noteq> [] \<and> last s = CHR ''='' then
        (if butlast s \<noteq> [] \<and> last (butlast s) = CHR ''='' then butlast (butlast s)
         else butlast s)
      else s)"

text \<open>Four sextets give three bytes; a rest of three gives two, a rest of two gives one.\<close>

fun atob_sextets :: "nat list \<Rightarrow> nat list" where
  "atob_sextets (p # q # r # s # rest) =
     (p * 4 + q div 16) # ((q mod 16) * 16 + r div 4) # ((r mod 4) * 64 + s) # atob_sextets rest"
| "atob_sextets [p, q, r] = [p * 4 + q div 16, (q mod 16) * 16 + r div 4]"
| "atob_sextets [p, q] = [p * 4 + q div 16]"
| "atob_sextets [p] = []"
| "atob_sextets [] = []"

definition atob :: "string \<Rightarrow> js_error + string" where
  "atob s =
     (let d = strip_padding (filter (\<lambda>c. \<not> ascii_whitespace c) s) in
      if length d mod 4 = 1 then Inl InvalidCharacterError
      else (case those (map b64_index d) of
              None \<Rightarrow> Inl InvalidCharacterError
            | Some sx \<Rightarrow> Inr (map char_of (atob_sextets sx))))"

text \<open>The sextets of the encoding, before the alphabet and the padding are applied.\<close>

fun sextets :: "nat list \<Rightarrow> nat list" where
  "sextets (a # b # c # rest) =
     (a div 4) # ((a mod 4) * 16 + b div 16) # ((b mod 16) * 4 + c div 64) # (c mod 64) #
     sextets rest"
| "sextets [a, b] = [a div 4, (a mod 4) * 16 + b div 16, (b mod 16) * 4]"
| "sextets [a] = [a div 4, (a mod 4) * 16]"
| "sextets [] = []"

definition padding :: "nat \<Rightarrow> nat" where
  "padding n = (3 - n mod 3) mod 3"

subsection \<open>The PCM codec (\<^verbatim>\<open>encode\<close>, \<^verbatim>\<open>decode\<close>, \<^verbatim>\<open>createBlob\<close>, \<^verbatim>\<open>decodeAudioData\<close>)\<close>

text \<open>\<^verbatim>\<open>data[i] * 32768\<close> on an element of a \<^verbatim>\<open>Float32Array\<close>.\<close>

fun times_32768 :: "js_number \<Rightarrow> js_number" where
  "times_32768 (Num x) = Num (x * 32768)"
| "times_32768 NaN = NaN"
| "times_32768 PosInfinity = PosInfinity"
| "times_32768 NegInfinity = NegInfinity"

text \<open>
  Storing a number into an \<^verbatim>\<open>Int16Array\<close> (\<^verbatim>\<open>ToInt16\<close>): a number that is not
  finite becomes 0, a finite one is truncated towards zero and reduced modulo \<open>2^16\<close>.
  \<open>word_of_int\<close> is that reduction, and \<open>sint\<close> reads the element back as the signed
  value JavaScript sees.
\<close>

fun ToInt16 :: "js_number \<Rightarrow> 16 word" where
  "ToInt16 (Num x) = word_of_int (trunc x)"
| "ToInt16 NaN = 0"
| "ToInt16 PosInfinity = 0"
| "ToInt16 NegInfinity = 0"

text \<open>
  \<^verbatim>\<open>new Uint8Array(int16.buffer)\<close>: the bytes of the array, low byte first (typed
  arrays use the byte order of the platform, little-endian on every browser platform;
  \<^verbatim>\<open>Int16Array_view\<close> below reads with the same order).
\<close>

definition Int16Array_buffer :: "Int16Array \<Rightarrow> Uint8Array" where
  "Int16Array_buffer int16 = concat (map (\<lambda>w. [ucast w, ucast (drop_bit 8 w)]) int16)"

definition encode :: "Uint8Array \<Rightarrow> string" where
  "encode bytes = btoa (map (\<lambda>b. char_of (unat b)) bytes)"

definition decode :: "string \<Rightarrow> js_error + Uint8Array" where
  "decode base64 =
     (case atob base64 of
        Inl e \<Rightarrow> Inl e
      | Inr binaryString \<Rightarrow> Inr (map (\<lambda>c. word_of_nat (of_char c)) binaryString))"

record Blob =
  blob_data :: string
  blob_mimeType :: string

definition createBlob :: "Float32Array \<Rightarrow> Blob" where
  "createBlob samples =
     \<lparr>blob_data = encode (Int16Array_buffer (map (\<lambda>v. ToInt16 (times_32768 v)) samples)),
      blob_mimeType = ''audio/pcm;rate=16000''\<rparr>"

fun Int16Array_view :: "Uint8Array \<Rightarrow> Int16Array" where
  "Int16Array_view (lo # hi # rest) = word_cat hi lo # Int16Array_view rest"
| "Int16Array_view [lo] = []"
| "Int16Array_view [] = []"

text \<open>
  \<^verbatim>\<open>new Int16Array(data.buffer)\<close> throws a \<^verbatim>\<open>RangeError\<close> when the byte length of
  the buffer is not a multiple of 2.
\<close>

definition new_Int16Array :: "Uint8Array \<Rightarrow> js_error + Int16Array" where
  "new_Int16Array buffer =
     (if odd (length buffer) then Inl RangeError else Inr (Int16Array_view buffer))"

record AudioBuffer =
  sampleRateOf :: nat
  channels :: "Float32Array list"

text \<open>The conversion of an argument declared \<^verbatim>\<open>unsigned long\<close>.\<close>

definition ToUint32 :: "real \<Rightarrow> nat" where
  "ToUint32 x = nat (trunc x mod 2 ^ 32)"

text \<open>
  \<^verbatim>\<open>ctx.createBuffer(numberOfChannels, length, sampleRate)\<close> of the Web Audio API: a
  \<^verbatim>\<open>NotSupportedError\<close> when the channel count or the length is zero or an argument is
  outside its nominal range. The range taken here (up to 32 channels, 8000 to 96000 Hz)
  is the one every implementation has to support; the pipeline only asks for one
  channel at 24000 Hz.
\<close>

definition createBuffer :: "nat \<Rightarrow> real \<Rightarrow> nat \<Rightarrow> js_error + AudioBuffer" where
  "createBuffer numberOfChannels len rate =
     (if numberOfChannels = 0 \<or> 32 < numberOfChannels \<or> ToUint32 len = 0 \<or>
         rate < 8000 \<or> 96000 < rate
      then Inl NotSupportedError
      else Inr \<lparr>sampleRateOf = rate,
                channels = replicate numberOfChannels (replicate (ToUint32 len) (Num 0))\<rparr>)"

text \<open>
  \<^verbatim>\<open>audioBuffer.duration\<close>, in seconds: the length in sample frames divided by the
  sample rate, as a double.
\<close>

definition duration :: "AudioBuffer \<Rightarrow> real" where
  "duration b = js_divide (real (length (channels b ! 0))) (real (sampleRateOf b))"

text \<open>
  \<^verbatim>\<open>dataInt16[k] / 32768.0\<close>: a read past the end is \<^verbatim>\<open>undefined\<close>, and the quotient
  then \<^verbatim>\<open>NaN\<close>.
\<close>

definition Int16_sample :: "Int16Array \<Rightarrow> nat \<Rightarrow> js_number" where
  "Int16_sample dataInt16 k =
     (if k < length dataInt16 then Num (real_of_int (sint (dataInt16 ! k)) / 32768) else NaN)"

text \<open>
  The inner loop \<^verbatim>\<open>for (let i = 0; i < frameCount; i++)\<close>. \<^verbatim>\<open>frameCount\<close> is
  the quotient of two numbers and need not be whole. A store past the end of
  \<^verbatim>\<open>channelData\<close> is ignored, which is what list update does.
\<close>

function fill_channel ::
  "Int16Array \<Rightarrow> nat \<Rightarrow> real \<Rightarrow> nat \<Rightarrow> nat \<Rightarrow> Float32Array \<Rightarrow> Float32Array" where
  "fill_channel dataInt16 numChannels frameCount channel i channelData =
     (if real i < frameCount
      then fill_channel dataInt16 numChannels frameCount channel (i + 1)
             (channelData[i := Int16_sample dataInt16 (i * numChannels + channel)])
      else channelData)"
  by pat_completeness auto
termination
proof (relation "measure (\<lambda>(dataInt16, numChannels, frameCount, channel, i, channelData).
                   nat \<lceil>frameCount\<rceil> - i)", goal_cases)
  case 1
  show ?case by simp
next
  case (2 dataInt16 numChannels frameCount channel i channelData)
  then have "i < nat \<lceil>frameCount\<rceil>"
    by (simp add: zless_nat_eq_int_zless less_ceiling_iff)
  then show ?case by simp
qed

declare fill_channel.simps [simp del]

text \<open>The outer loop over the channels.\<close>

primrec fill_channels ::
  "Int16Array \<Rightarrow> nat \<Rightarrow> real \<Rightarrow> nat list \<Rightarrow> AudioBuffer \<Rightarrow> AudioBuffer" where
  "fill_channels dataInt16 numChannels frameCount [] buffer = buffer"
| "fill_channels dataInt16 numChannels frameCount (channel # rest) buffer =
     fill_channels dataInt16 numChannels frameCount rest
       (buffer\<lparr>channels := (channels buffer)
          [channel := fill_channel dataInt16 numChannels frameCount channel 0
                        (channels buffer ! channel)]\<rparr>)"

text \<open>
  \<^verbatim>\<open>decodeAudioData(data, ctx, sampleRate, numChannels)\<close>. With \<^verbatim>\<open>numChannels = 0\<close>
  the quotient is not finite in JavaScript and 0 here; both convert to the length 0 that
  \<^verbatim>\<open>createBuffer\<close> rejects, and it rejects the channel count anyway.
\<close>

definition decodeAudioData :: "Uint8Array \<Rightarrow> nat \<Rightarrow> nat \<Rightarrow> js_error + AudioBuffer" where
  "decodeAudioData bytes rate numChannels =
     (case new_Int16Array bytes of
        Inl e \<Rightarrow> Inl e
      | Inr dataInt16 \<Rightarrow>
          (let frameCount = real (length dataInt16) / real numChannels in
           case createBuffer numChannels frameCount rate of
             Inl e \<Rightarrow> Inl e
           | Inr buffer \<Rightarrow>
               Inr (fill_channels dataInt16 numChannels frameCount [0..<numChannels] buffer)))"

text \<open>
  The expression \<^verbatim>\<open>decodeAudioData(decode(base64Audio), audioCtx, 24000, 1)\<close> of the
  message handler.
\<close>

definition decode_payload :: "string \<Rightarrow> js_error + AudioBuffer" where
  "decode_payload base64Audio =
     (case decode base64Audio of Inl e \<Rightarrow> Inl e | Inr bytes \<Rightarrow> decodeAudioData bytes 24000 1)"

subsection \<open>The system instruction of \<^verbatim>\<open>startLiveSession\<close>\<close>

record UserProfile =
  skinType :: string
  allergies :: "string list"
  goals :: string

text \<open>Every field of the questionnaire is optional; \<open>None\<close> is \<^verbatim>\<open>undefined\<close>.\<close>

record MedicalQuestionnaireData =
  medicalHistory :: "string option"
  currentMedications :: "string option"
  concomitantMedications :: "string option"
  signsSymptoms :: "string option"
  labWork :: "string option"
  recentVaccinations :: "string option"

definition base_persona :: string where
  "base_persona = ''You are DermaGenius, a friendly and knowledgeable AI skincare assistant. Your goal is to provide helpful, safe, and informative advice on skincare. You are not a medical professional. Always remind users to consult a dermatologist for serious medical conditions. Be encouraging and positive in your tone.''"

definition profile_segment :: "UserProfile \<Rightarrow> string" where
  "profile_segment userProfile =
     ''\<newline>\<newline>User Profile: Skin Type: '' @ skinType userProfile @
     ''. Known Allergies: '' @ or_else (join '', '' (allergies userProfile)) ''None'' @
     ''. Skincare Goals: '' @ goals userProfile @ ''. Tailor advice to this profile.''"

text \<open>\<^verbatim>\<open>if (field) medicalContext.push(label + field)\<close>.\<close>

definition push_if :: "string option \<Rightarrow> string \<Rightarrow> string list \<Rightarrow> string list" where
  "push_if field label medicalContext =
     (case field of
        None \<Rightarrow> medicalContext
      | Some v \<Rightarrow> if truthy v then medicalContext @ [label @ v] else medicalContext)"

definition medicalContext_of :: "MedicalQuestionnaireData \<Rightarrow> string list" where
  "medicalContext_of medicalData =
     push_if (recentVaccinations medicalData) ''Recent Vaccinations: ''
    (push_if (labWork medicalData) ''Lab Work: ''
    (push_if (signsSymptoms medicalData) ''Signs & Symptoms: ''
    (push_if (concomitantMedications medicalData) ''Concomitant Medications: ''
    (push_if (currentMedications medicalData) ''Current Medications: ''
    (push_if (medicalHistory medicalData) ''Medical History: '' [])))))"

definition medical_segment :: "string list \<Rightarrow> string" where
  "medical_segment medicalContext =
     ''\<newline>\<newline>User Medical Context: '' @ join ''; '' medicalContext @
     ''. Keep this in mind for all advice, especially regarding safety, interactions, and contraindications.''"

text \<open>The value of \<^verbatim>\<open>systemInstruction\<close> that \<^verbatim>\<open>startLiveSession\<close> passes to
  \<^verbatim>\<open>ai.live.connect\<close>.\<close>

definition systemInstruction ::
  "UserProfile option \<Rightarrow> MedicalQuestionnaireData option \<Rightarrow> string" where
  "systemInstruction userProfile medicalData =
     (let s0 = base_persona;
          s1 = (case userProfile of None \<Rightarrow> s0 | Some p \<Rightarrow> s0 @ profile_segment p);
          s2 = (case medicalData of
                  None \<Rightarrow> s1
                | Some m \<Rightarrow>
                    if 0 < length (medicalContext_of m)
                    then s1 @ medical_segment (medicalContext_of m) else s1)
      in s2)"

text \<open>Whether the questionnaire has a field that is present and not empty.\<close>

definition has_medical_field :: "MedicalQuestionnaireData \<Rightarrow> bool" where
  "has_medical_field m =
     list_ex (\<lambda>field. case field of None \<Rightarrow> False | Some v \<Rightarrow> truthy v)
       [medicalHistory m, currentMedications m, concomitantMedications m, signsSymptoms m,
        labWork m, recentVaccinations m]"

subsection \<open>The chat screen: state, refs and the host\<close>

datatype ChatRole = USER | MODEL

text \<open>
  A message of the conversation log. The voice pipeline only ever sets the role and the
  text.
\<close>

record ChatMessage =
  role :: ChatRole
  msg_text :: string

text \<open>Objects of the host are known by an identity.\<close>

type_synonym LiveSession = nat
type_synonym MediaStream = nat
type_synonym ScriptProcessorNode = nat

text \<open>
  An \<^verbatim>\<open>AudioBufferSourceNode\<close>: its buffer, whether \<^verbatim>\<open>start\<close> has been called and
  with which time.
\<close>

record AudioBufferSourceNode =
  node_id :: nat
  node_buffer :: AudioBuffer
  started :: bool
  start_time :: real

text \<open>
  The fields of a \<^verbatim>\<open>LiveServerMessage\<close> that the handlers read, all below
  \<^verbatim>\<open>message.serverContent\<close>. A transcription is represented by its text.
\<close>

record Part =
  inlineData :: "string option"

record Content =
  parts :: "Part list option"

record LiveServerMessage =
  outputTranscription :: "string option"
  inputTranscription :: "string option"
  turnComplete :: bool
  modelTurn :: "Content option"
  interrupted :: bool

record ChatScreen =
  chatHistory :: "ChatMessage list"
  isListening :: bool
  liveSession :: "LiveSession option"
  micStream :: "MediaStream option"
  audioInputProcessor :: "ScriptProcessorNode option"
  currentInputTranscription :: string
  currentOutputTranscription :: string
  sessionError :: "string option"
  outputAudioContextRef :: bool
  outputNodeRef :: bool
  audioSourcesRef :: "AudioBufferSourceNode list"
  nextStartTimeRef :: real
  created_nodes :: nat
  stopped_nodes :: "nat list"
  stopped_streams :: "MediaStream list"
  disconnected_processors :: "ScriptProcessorNode list"
  closed_sessions :: "LiveSession list"
  sent_media :: "(LiveSession \<times> Blob) list"
  console :: "string list"

text \<open>
  The first ten fields are the component's state and refs (the two output refs are
  \<open>True\<close> once the mount effect has filled them; the \<^verbatim>\<open>Set\<close> of source nodes is
  kept in insertion order, the order \<^verbatim>\<open>forEach\<close> visits). The rest records what
  the handlers did to the host: how many source nodes were created, which nodes, media
  streams, processors and sessions were stopped, disconnected or closed, which encoded
  frames were handed to \<^verbatim>\<open>sendRealtimeInput\<close>, and what was written with
  \<^verbatim>\<open>console.error\<close>.

  The state constants that a closure created during one render can see:
\<close>

record Render =
  r_isListening :: bool
  r_liveSession :: "LiveSession option"
  r_micStream :: "MediaStream option"
  r_audioInputProcessor :: "ScriptProcessorNode option"
  r_currentInputTranscription :: string
  r_currentOutputTranscription :: string

definition render :: "ChatScreen \<Rightarrow> Render" where
  "render s =
     \<lparr>r_isListening = isListening s, r_liveSession = liveSession s, r_micStream = micStream s,
      r_audioInputProcessor = audioInputProcessor s,
      r_currentInputTranscription = currentInputTranscription s,
      r_currentOutputTranscription = currentOutputTranscription s\<rparr>"

subsection \<open>Teardown (\<^verbatim>\<open>stopMic\<close>)\<close>

text \<open>
  \<^verbatim>\<open>audioSourcesRef.current.forEach(source => source.stop())\<close>. \<^verbatim>\<open>stop\<close> throws an
  \<^verbatim>\<open>InvalidStateError\<close> on a node that was never started, which ends the loop. The
  second argument collects the nodes stopped so far.
\<close>

fun stop_sources :: "AudioBufferSourceNode list \<Rightarrow> nat list \<Rightarrow> nat list \<times> js_error option" where
  "stop_sources [] stopped = (stopped, None)"
| "stop_sources (source # rest) stopped =
     (if started source then stop_sources rest (stopped @ [node_id source])
      else (stopped, Some InvalidStateError))"

text \<open>
  \<^verbatim>\<open>stopMic\<close> is a closure of the render \<open>r\<close>: the stream, processor and session it
  releases are the ones that render saw. Stopping the tracks of a stream and
  disconnecting a processor cannot throw; \<^verbatim>\<open>stopLiveSession\<close> is an
  \<^verbatim>\<open>async\<close> function that is not awaited, so nothing it throws reaches the caller.
  The state setters and the refs are the same for every render.
\<close>

definition stopMic :: "Render \<Rightarrow> ChatScreen \<Rightarrow> ChatScreen \<times> js_error option" where
  "stopMic r s =
     (let s1 = (case r_micStream r of
                  None \<Rightarrow> s
                | Some stream \<Rightarrow> s\<lparr>stopped_streams := stopped_streams s @ [stream]\<rparr>);
          s2 = (case r_audioInputProcessor r of
                  None \<Rightarrow> s1
                | Some processor \<Rightarrow>
                    s1\<lparr>disconnected_processors := disconnected_processors s1 @ [processor]\<rparr>);
          s3 = (case r_liveSession r of
                  None \<Rightarrow> s2
                | Some session \<Rightarrow> s2\<lparr>closed_sessions := closed_sessions s2 @ [session]\<rparr>)
      in case stop_sources (audioSourcesRef s3) (stopped_nodes s3) of
           (stopped, Some e) \<Rightarrow> (s3\<lparr>stopped_nodes := stopped\<rparr>, Some e)
         | (stopped, None) \<Rightarrow>
             (s3\<lparr>stopped_nodes := stopped, audioSourcesRef := [], micStream := None,
                 audioInputProcessor := None, liveSession := None, isListening := False,
                 currentInputTranscription := [], currentOutputTranscription := [],
                 nextStartTimeRef := 0\<rparr>, None))"

subsection \<open>Capture (\<^verbatim>\<open>startMic\<close>, \<^verbatim>\<open>onaudioprocess\<close>, \<^verbatim>\<open>processAudioChunk\<close>)\<close>

text \<open>The \<^verbatim>\<open>catch\<close> block of \<^verbatim>\<open>startMic\<close>.\<close>

definition startMic_catch :: "ChatScreen \<Rightarrow> ChatScreen" where
  "startMic_catch s =
     s\<lparr>console := console s @ [''Error starting microphone:''],
       sessionError := Some ''Failed to access microphone. Please ensure permissions are granted.'',
       isListening := False\<rparr>"

text \<open>
  \<^verbatim>\<open>startMic\<close> up to \<^verbatim>\<open>await startLiveSession(...)\<close>. The second argument is what
  \<^verbatim>\<open>getUserMedia\<close> settles with: a rejection, or the stream together with the
  script processor created for it. Resuming a suspended output context changes nothing
  that is modelled. The handlers installed here (the audio tap and the
  callbacks of the session) are closures of the render \<open>r\<close> in which \<^verbatim>\<open>startMic\<close>
  was created; below they take \<open>r\<close> as their first argument.
\<close>

definition startMic_begin ::
  "Render \<Rightarrow> js_error + MediaStream \<times> ScriptProcessorNode \<Rightarrow> ChatScreen \<Rightarrow> ChatScreen" where
  "startMic_begin r userMedia s =
     (if r_isListening r then s
      else (case userMedia of
              Inl e \<Rightarrow> startMic_catch (s\<lparr>sessionError := None\<rparr>)
            | Inr (stream, scriptProcessor) \<Rightarrow>
                s\<lparr>sessionError := None, micStream := Some stream,
                  audioInputProcessor := Some scriptProcessor\<rparr>))"

text \<open>\<^verbatim>\<open>setLiveSession(session)\<close>, once \<^verbatim>\<open>startLiveSession\<close> has resolved.\<close>

definition startMic_connected :: "LiveSession \<Rightarrow> ChatScreen \<Rightarrow> ChatScreen" where
  "startMic_connected session s = s\<lparr>liveSession := Some session\<rparr>"

definition processAudioChunk :: "LiveSession \<Rightarrow> Float32Array \<Rightarrow> ChatScreen \<Rightarrow> ChatScreen" where
  "processAudioChunk session inputData s =
     s\<lparr>sent_media := sent_media s @ [(session, createBlob inputData)]\<rparr>"

definition onaudioprocess :: "Render \<Rightarrow> Float32Array \<Rightarrow> ChatScreen \<Rightarrow> ChatScreen" where
  "onaudioprocess r inputData s =
     (case r_liveSession r of
        None \<Rightarrow> s
      | Some session \<Rightarrow> processAudioChunk session inputData s)"

subsection \<open>Transcripts (\<^verbatim>\<open>onTranscription\<close>, \<^verbatim>\<open>onTurnComplete\<close>)\<close>

datatype transcription_type = Input | Output

text \<open>The setters are called with an updater function, which receives the current state.\<close>

definition onTranscription :: "transcription_type \<Rightarrow> string \<Rightarrow> ChatScreen \<Rightarrow> ChatScreen" where
  "onTranscription type txt s =
     (case type of
        Input \<Rightarrow> s\<lparr>currentInputTranscription := currentInputTranscription s @ txt\<rparr>
      | Output \<Rightarrow> s\<lparr>currentOutputTranscription := currentOutputTranscription s @ txt\<rparr>)"

text \<open>
  The turn-complete callback reads \<^verbatim>\<open>currentInputTranscription\<close> and
  \<^verbatim>\<open>currentOutputTranscription\<close> as constants of the render \<open>r\<close>; only the history
  is updated through an updater function.
\<close>

definition onTurnComplete :: "Render \<Rightarrow> ChatScreen \<Rightarrow> ChatScreen" where
  "onTurnComplete r s =
     (let s1 =
        (if truthy (r_currentInputTranscription r) \<or> truthy (r_currentOutputTranscription r)
         then
           (let h0 = chatHistory s;
                h1 = (if truthy (r_currentInputTranscription r)
                      then h0 @ [\<lparr>role = USER, msg_text = r_currentInputTranscription r\<rparr>]
                      else h0);
                h2 = (if truthy (r_currentOutputTranscription r)
                      then h1 @ [\<lparr>role = MODEL, msg_text = r_currentOutputTranscription r\<rparr>]
                      else h1)
            in s\<lparr>chatHistory := h2\<rparr>)
         else s)
      in s1\<lparr>currentInputTranscription := [], currentOutputTranscription := []\<rparr>)"

subsection \<open>Playback (the \<^verbatim>\<open>onmessage\<close> callback of the chat screen)\<close>

text \<open>
  \<^verbatim>\<open>message.serverContent?.modelTurn?.parts[0]?.inlineData?.data\<close>. The index into
  \<^verbatim>\<open>parts\<close> is not optional: a model turn without \<^verbatim>\<open>parts\<close> is a
  \<^verbatim>\<open>TypeError\<close>.
\<close>

definition base64Audio_of :: "LiveServerMessage \<Rightarrow> js_error + string option" where
  "base64Audio_of message =
     (case modelTurn message of
        None \<Rightarrow> Inr None
      | Some content \<Rightarrow>
          (case parts content of
             None \<Rightarrow> Inl TypeError
           | Some [] \<Rightarrow> Inr None
           | Some (part # rest) \<Rightarrow> Inr (inlineData part)))"

text \<open>
  The body of \<^verbatim>\<open>if (base64Audio)\<close>. \<open>currentTime\<close> is the clock of the output
  context when the handler runs. The playback clock is clamped before the payload is
  decoded. \<^verbatim>\<open>start\<close> throws a \<^verbatim>\<open>RangeError\<close> for a negative time. The handler is
  taken as one step: the \<^verbatim>\<open>await\<close> in it waits for a promise that is already
  settled.
\<close>

definition schedule_audio :: "string \<Rightarrow> real \<Rightarrow> ChatScreen \<Rightarrow> ChatScreen \<times> js_error option" where
  "schedule_audio base64Audio currentTime s =
     (let s1 = s\<lparr>nextStartTimeRef := max (nextStartTimeRef s) currentTime\<rparr> in
      case decode_payload base64Audio of
        Inl e \<Rightarrow> (s1, Some e)
      | Inr audioBuffer \<Rightarrow>
          if nextStartTimeRef s1 < 0
          then (s1\<lparr>created_nodes := Suc (created_nodes s1)\<rparr>, Some RangeError)
          else
            (s1\<lparr>created_nodes := Suc (created_nodes s1),
                nextStartTimeRef := js_plus (nextStartTimeRef s1) (duration audioBuffer),
                audioSourcesRef := audioSourcesRef s1 @
                  [\<lparr>node_id = created_nodes s1, node_buffer = audioBuffer, started = True,
                    start_time = nextStartTimeRef s1\<rparr>]\<rparr>,
             None))"

text \<open>The body of \<^verbatim>\<open>if (message.serverContent?.interrupted)\<close>.\<close>

definition stop_all_audio :: "ChatScreen \<Rightarrow> ChatScreen \<times> js_error option" where
  "stop_all_audio s =
     (case stop_sources (audioSourcesRef s) (stopped_nodes s) of
        (stopped, Some e) \<Rightarrow> (s\<lparr>stopped_nodes := stopped\<rparr>, Some e)
      | (stopped, None) \<Rightarrow>
          (s\<lparr>stopped_nodes := stopped, audioSourcesRef := [], nextStartTimeRef := 0\<rparr>, None))"

definition callbacks_onmessage ::
  "LiveServerMessage \<Rightarrow> real \<Rightarrow> ChatScreen \<Rightarrow> ChatScreen \<times> js_error option" where
  "callbacks_onmessage message currentTime s =
     (if outputAudioContextRef s \<and> outputNodeRef s then
        (case base64Audio_of message of
           Inl e \<Rightarrow> (s, Some e)
         | Inr base64Audio \<Rightarrow>
             (case (case base64Audio of
                      None \<Rightarrow> (s, None)
                    | Some b \<Rightarrow> if truthy b then schedule_audio b currentTime s else (s, None)) of
                (s1, Some e) \<Rightarrow> (s1, Some e)
              | (s1, None) \<Rightarrow> if interrupted message then stop_all_audio s1 else (s1, None)))
      else (s, None))"

text \<open>The listener for \<^verbatim>\<open>ended\<close> that every scheduled node carries.\<close>

definition source_ended :: "nat \<Rightarrow> ChatScreen \<Rightarrow> ChatScreen" where
  "source_ended n s = s\<lparr>audioSourcesRef := filter (\<lambda>source. node_id source \<noteq> n) (audioSourcesRef s)\<rparr>"

subsection \<open>The callbacks given to \<^verbatim>\<open>ai.live.connect\<close>\<close>

text \<open>
  The \<^verbatim>\<open>onmessage\<close> wrapper of \<^verbatim>\<open>startLiveSession\<close>: the transcriptions, then the
  end of the turn, then the callback of the chat screen, whose promise it does not await.
\<close>

definition handle_transcription :: "Render \<Rightarrow> LiveServerMessage \<Rightarrow> ChatScreen \<Rightarrow> ChatScreen" where
  "handle_transcription r message s =
     (let s1 = (case outputTranscription message of
                  None \<Rightarrow> s
                | Some txt \<Rightarrow> onTranscription Output txt s);
          s2 = (case inputTranscription message of
                  None \<Rightarrow> s1
                | Some txt \<Rightarrow> onTranscription Input txt s1)
      in if turnComplete message then onTurnComplete r s2 else s2)"

definition live_onmessage ::
  "Render \<Rightarrow> LiveServerMessage \<Rightarrow> real \<Rightarrow> ChatScreen \<Rightarrow> ChatScreen \<times> js_error option" where
  "live_onmessage r message currentTime s =
     callbacks_onmessage message currentTime (handle_transcription r message s)"

definition onopen :: "ChatScreen \<Rightarrow> ChatScreen" where
  "onopen s = s\<lparr>isListening := True\<rparr>"

definition onerror :: "Render \<Rightarrow> ChatScreen \<Rightarrow> ChatScreen \<times> js_error option" where
  "onerror r s =
     stopMic r (s\<lparr>console := console s @ [''Live session error:''],
                 sessionError := Some ''Live conversation error. Please try again.''\<rparr>)"

definition onclose :: "Render \<Rightarrow> ChatScreen \<Rightarrow> ChatScreen \<times> js_error option" where
  "onclose r s = stopMic r s"

subsection \<open>Sessions as event traces\<close>

text \<open>
  What can happen after a call of \<^verbatim>\<open>startMic\<close> has installed its handlers: a tick
  of the audio tap, the session opening, the promise of \<^verbatim>\<open>startLiveSession\<close>
  settling, a server message (with the output clock at that moment), an error or close
  event of the session, a source node ending, and a click on the stop button.
\<close>

datatype event =
  AudioProcess Float32Array
| Opened
| Connected LiveSession
| ConnectFailed
| ServerMessage LiveServerMessage real
| SessionFailed
| Closed
| Ended nat
| StopClicked

text \<open>
  The handlers of one \<^verbatim>\<open>startMic\<close> call are closures of its render \<open>r\<close>. The stop
  button is bound to the \<^verbatim>\<open>stopMic\<close> of the latest render.
\<close>

fun handle :: "Render \<Rightarrow> event \<Rightarrow> ChatScreen \<Rightarrow> ChatScreen \<times> js_error option" where
  "handle r (AudioProcess inputData) s = (onaudioprocess r inputData s, None)"
| "handle r Opened s = (onopen s, None)"
| "handle r (Connected session) s = (startMic_connected session s, None)"
| "handle r ConnectFailed s = (startMic_catch s, None)"
| "handle r (ServerMessage message currentTime) s = live_onmessage r message currentTime s"
| "handle r SessionFailed s = onerror r s"
| "handle r Closed s = onclose r s"
| "handle r (Ended n) s = (source_ended n s, None)"
| "handle r StopClicked s = stopMic (render s) s"

text \<open>
  An exception that escapes a handler is reported by the host and the event loop goes
  on with the state as the handler left it.
\<close>

fun run :: "Render \<Rightarrow> event list \<Rightarrow> ChatScreen \<Rightarrow> ChatScreen" where
  "run r [] s = s"
| "run r (ev # evs) s = run r evs (fst (handle r ev s))"

text \<open>
  The component after its mount effect, with the history it was given: nothing captured,
  nothing playing.
\<close>

definition mounted :: "ChatMessage list \<Rightarrow> ChatScreen" where
  "mounted initialChatHistory =
     \<lparr>chatHistory = initialChatHistory, isListening = False, liveSession = None,
      micStream = None, audioInputProcessor = None, currentInputTranscription = [],
      currentOutputTranscription = [], sessionError = None, outputAudioContextRef = True,
      outputNodeRef = True, audioSourcesRef = [], nextStartTimeRef = 0, created_nodes = 0,
      stopped_nodes = [], stopped_streams = [], disconnected_processors = [],
      closed_sessions = [], sent_media = [], console = []\<rparr>"

text \<open>
  A click on the start button in state \<open>s\<close>, with microphone access granted, followed
  by the events \<open>evs\<close>.
\<close>

definition voice_session ::
  "ChatScreen \<Rightarrow> MediaStream \<Rightarrow> ScriptProcessorNode \<Rightarrow> event list \<Rightarrow> ChatScreen" where
  "voice_session s stream scriptProcessor evs =
     run (render s) evs (startMic_begin (render s) (Inr (stream, scriptProcessor)) s)"

text \<open>
  The state between sessions, as \<^verbatim>\<open>stopMic\<close> leaves it, and the invariant of the set
  of source nodes: a node is added only after its \<^verbatim>\<open>start\<close>.
\<close>

definition idle :: "ChatScreen \<Rightarrow> bool" where
  "idle s =
     (micStream s = None \<and> audioInputProcessor s = None \<and> liveSession s = None \<and>
      isListening s = False \<and> currentInputTranscription s = [] \<and>
      currentOutputTranscription s = [] \<and> audioSourcesRef s = [] \<and> nextStartTimeRef s = 0)"

definition sources_started :: "ChatScreen \<Rightarrow> bool" where
  "sources_started s = list_all started (audioSourcesRef s)"

text \<open>
  The states the component can be in: the mounted one, and any state left by a start of
  the microphone or by a handler, whichever render the handler was created in.
\<close>

inductive reachable :: "ChatScreen \<Rightarrow> bool" where
  reachable_mounted: "reachable (mounted initialChatHistory)"
| reachable_start: "reachable s \<Longrightarrow> reachable (startMic_begin r userMedia s)"
| reachable_handle: "reachable s \<Longrightarrow> reachable (fst (handle r ev s))"

code_pred reachable .

subsection \<open>Concrete inputs\<close>

text \<open>
  A call that is rate-limited twice and then succeeds, and one that is rate-limited every
  time; the world is the number of calls made so far.
\<close>

definition flaky :: "nat \<Rightarrow> (thrown + nat) \<times> nat" where
  "flaky k = (if k < 2 then Inl (ErrorObj None (Some 429) None) else Inr 42, Suc k)"

definition exhausted :: "nat \<Rightarrow> (thrown + nat) \<times> nat" where
  "exhausted k =
     (Inl (ErrorObj None None (Some (''Rate Limit hit, call '' @ [char_of (48 + k)]))), Suc k)"

text \<open>
  A capture frame of 4096 samples whose first sample is a clipped positive peak, and a
  payload of six bytes.
\<close>

definition clipped_frame :: Float32Array where
  "clipped_frame = Num 1 # replicate 4095 (Num 0)"

definition six_bytes :: Uint8Array where
  "six_bytes = [1, 2, 3, 4, 5, 6]"

text \<open>A profile and a questionnaire with two fields filled in and one left empty.\<close>

definition example_profile :: UserProfile where
  "example_profile = \<lparr>skinType = ''oily'', allergies = [''nickel'', ''latex''], goals = ''less redness''\<rparr>"

definition example_medical :: MedicalQuestionnaireData where
  "example_medical =
     \<lparr>medicalHistory = Some ''eczema'', currentMedications = Some '''',
      concomitantMedications = None, signsSymptoms = None, labWork = Some ''none'',
      recentVaccinations = None\<rparr>"

text \<open>
  Server messages with a single field set: a transcription delta of the model's speech,
  the end of a turn, an audio delta, an interruption.
\<close>

definition empty_message :: LiveServerMessage where
  "empty_message =
     \<lparr>outputTranscription = None, inputTranscription = None, turnComplete = False,
      modelTurn = None, interrupted = False\<rparr>"

definition output_delta :: "string \<Rightarrow> LiveServerMessage" where
  "output_delta txt = empty_message\<lparr>outputTranscription := Some txt\<rparr>"

definition turn_complete :: LiveServerMessage where
  "turn_complete = empty_message\<lparr>turnComplete := True\<rparr>"

definition audio_delta :: "string \<Rightarrow> LiveServerMessage" where
  "audio_delta base64Audio =
     empty_message\<lparr>modelTurn := Some \<lparr>parts = Some [\<lparr>inlineData = Some base64Audio\<rparr>]\<rparr>\<rparr>"

definition interruption :: LiveServerMessage where
  "interruption = empty_message\<lparr>interrupted := True\<rparr>"

text \<open>
  A session in which one audio delta has been scheduled and a transcription delta has
  arrived.
\<close>

definition playing :: ChatScreen where
  "playing =
     voice_session (mounted []) 1 2
       [Opened, Connected 7, ServerMessage (audio_delta ''AAA='') 0,
        ServerMessage (output_delta ''hi'') 0]"

text \<open>
  An audio delta that is also flagged \<^verbatim>\<open>interrupted\<close>, and a session in which three
  audio deltas have been scheduled.
\<close>

definition interrupted_audio :: "string \<Rightarrow> LiveServerMessage" where
  "interrupted_audio base64Audio = (audio_delta base64Audio)\<lparr>interrupted := True\<rparr>"


text \<open>The state after a buffer was scheduled at a given time.\<close>

definition scheduled :: "ChatScreen \<Rightarrow> AudioBuffer \<Rightarrow> real \<Rightarrow> ChatScreen" where
  "scheduled s audioBuffer startAt =
     s\<lparr>created_nodes := Suc (created_nodes s),
       nextStartTimeRef := js_plus startAt (duration audioBuffer),
       audioSourcesRef := audioSourcesRef s @
         [\<lparr>node_id = created_nodes s, node_buffer = audioBuffer, started = True,
           start_time = startAt\<rparr>]\<rparr>"

section \<open>Properties\<close>

subsection \<open>Double arithmetic\<close>

text \<open>
  The exponent is the one the comment on its definition promises; rounding is monotone
  on the non-negative numbers, leaves a double as it is, and is off by at most half a
  unit in the last place.
\<close>

lemma pow2_Suc: "(2::real) powi (k + 1) = 2 * 2 powi k"
  by (simp add: power_int_add)

lemma pow2_pred: "(2::real) powi (k - 1) = 2 powi k / 2"
  by (simp add: power_int_diff)

lemma pow2_pos [simp]: "0 < (2::real) powi k"
  by (simp add: zero_less_power_int)

lemma pow2_mono: "j \<le> k \<Longrightarrow> (2::real) powi j \<le> 2 powi k"
  by (simp add: power_int_increasing)

lemma pow2_strict_mono: "j < k \<Longrightarrow> (2::real) powi j < 2 powi k"
  by (simp add: power_int_strict_increasing)

lemma exponent_bounds:
  "x \<noteq> 0 \<Longrightarrow> 2 powi exponent x \<le> \<bar>x\<bar> \<and> \<bar>x\<bar> < 2 powi (exponent x + 1)"
proof (induction x rule: exponent.induct)
  case (1 x)
  consider (big) "2 \<le> \<bar>x\<bar>" | (small) "\<bar>x\<bar> < 1" | (unit) "1 \<le> \<bar>x\<bar>" "\<bar>x\<bar> < 2"
    by linarith
  then show ?case
  proof cases
    case big
    then have e: "exponent x = exponent (x / 2) + 1"
      using 1(3) by (subst exponent.simps) simp
    from 1(1)[OF 1(3) big] 1(3)
    have "2 powi exponent (x / 2) \<le> \<bar>x\<bar> / 2 \<and> \<bar>x\<bar> / 2 < 2 powi (exponent (x / 2) + 1)"
      by simp
    then show ?thesis unfolding e pow2_Suc by simp
  next
    case small
    then have e: "exponent x = exponent (2 * x) - 1"
      using 1(3) by (subst exponent.simps) simp
    from small have nb: "\<not> 2 \<le> \<bar>x\<bar>" by simp
    from 1(2)[OF 1(3) nb small] 1(3)
    have "2 powi exponent (2 * x) \<le> 2 * \<bar>x\<bar> \<and> 2 * \<bar>x\<bar> < 2 powi (exponent (2 * x) + 1)"
      by (simp add: abs_mult)
    then show ?thesis unfolding e pow2_Suc by (simp add: pow2_pred)
  next
    case unit
    then have e: "exponent x = 0"
      using 1(3) by (subst exponent.simps) simp
    show ?thesis unfolding e using unit by simp
  qed
qed

lemma exponent_unique:
  assumes "2 powi k \<le> \<bar>x\<bar>" "\<bar>x\<bar> < 2 powi (k + 1)"
  shows "exponent x = k"
proof -
  from less_le_trans[OF pow2_pos assms(1)] have x: "x \<noteq> 0" by simp
  note b = exponent_bounds[OF x]
  have "\<not> exponent x < k"
  proof
    assume "exponent x < k"
    then have "(2::real) powi (exponent x + 1) \<le> 2 powi k" by (intro pow2_mono) simp
    with b assms show False by linarith
  qed
  moreover have "\<not> k < exponent x"
  proof
    assume "k < exponent x"
    then have "(2::real) powi (k + 1) \<le> 2 powi exponent x" by (intro pow2_mono) simp
    with b assms show False by linarith
  qed
  ultimately show ?thesis by simp
qed

lemma exponent_less:
  assumes "x \<noteq> 0" "\<bar>x\<bar> < 2 powi k"
  shows "exponent x < k"
proof (rule ccontr)
  assume "\<not> exponent x < k"
  then have "(2::real) powi k \<le> 2 powi exponent x" by (intro pow2_mono) simp
  with exponent_bounds[OF assms(1)] assms(2) show False by linarith
qed

lemma exponent_ge:
  assumes "2 powi k \<le> \<bar>x\<bar>"
  shows "k \<le> exponent x"
proof (rule ccontr)
  assume "\<not> k \<le> exponent x"
  then have "(2::real) powi (exponent x + 1) \<le> 2 powi k" by (intro pow2_mono) simp
  moreover from less_le_trans[OF pow2_pos assms] have "x \<noteq> 0" by simp
  ultimately show False using exponent_bounds[of x] assms by linarith
qed

lemma exponent_mono:
  assumes "0 < x" "x \<le> y"
  shows "exponent x \<le> exponent y"
proof -
  from assms have "2 powi exponent x \<le> \<bar>y\<bar>"
    using exponent_bounds[of x] by simp
  then show ?thesis by (rule exponent_ge)
qed

lemma round_ties_even_of_int [simp]: "round_ties_even (of_int n) = n"
  by (simp add: round_ties_even_def)

lemma round_ties_even_cases:
  "round_ties_even y = \<lfloor>y\<rfloor> \<or> round_ties_even y = \<lfloor>y\<rfloor> + 1"
  by (simp add: round_ties_even_def Let_def)

lemma round_ties_even_mono:
  assumes "a \<le> b"
  shows "round_ties_even a \<le> round_ties_even b"
proof (cases "\<lfloor>a\<rfloor> = \<lfloor>b\<rfloor>")
  case True
  with assms show ?thesis by (simp add: round_ties_even_def Let_def)
next
  case False
  with assms have "\<lfloor>a\<rfloor> < \<lfloor>b\<rfloor>" using floor_mono[OF assms] by simp
  moreover have "round_ties_even a \<le> \<lfloor>a\<rfloor> + 1" "\<lfloor>b\<rfloor> \<le> round_ties_even b"
    using round_ties_even_cases[of a] round_ties_even_cases[of b] by auto
  ultimately show ?thesis by simp
qed

lemma round_ties_even_error: "\<bar>of_int (round_ties_even y) - y\<bar> \<le> 1 / 2"
proof -
  have "of_int \<lfloor>y\<rfloor> \<le> y" "y < of_int \<lfloor>y\<rfloor> + 1" by linarith+
  then show ?thesis by (auto simp: round_ties_even_def Let_def)
qed

lemma round_ties_even_below:
  assumes "y < of_int n - 1 / 2"
  shows "round_ties_even y \<le> n - 1"
proof -
  have "of_int \<lfloor>y\<rfloor> \<le> y" by simp
  with assms have "of_int \<lfloor>y\<rfloor> < (of_int n :: real)" by linarith
  then have f: "\<lfloor>y\<rfloor> \<le> n - 1" by simp
  show ?thesis
  proof (cases "\<lfloor>y\<rfloor> = n - 1")
    case True
    then have "y - of_int \<lfloor>y\<rfloor> < 1 / 2" using assms by simp
    then show ?thesis using True by (simp add: round_ties_even_def Let_def)
  next
    case False
    with f have "\<lfloor>y\<rfloor> + 1 \<le> n - 1" by simp
    then show ?thesis using round_ties_even_cases[of y] by auto
  qed
qed

lemma nearest_multiple_mono:
  assumes "a \<le> b"
  shows "nearest_multiple q a \<le> nearest_multiple q b"
proof -
  from assms have "a / 2 powi q \<le> b / 2 powi q" by (simp add: divide_right_mono)
  then have "round_ties_even (a / 2 powi q) \<le> round_ties_even (b / 2 powi q)"
    by (rule round_ties_even_mono)
  then show ?thesis by (simp add: nearest_multiple_def)
qed

lemma pow2_quotient:
  assumes "q \<le> k"
  shows "(2::real) powi k / 2 powi q = of_int (2 ^ nat (k - q))"
proof -
  have "(2::real) powi k / 2 powi q = 2 powi (k - q)" by (simp add: power_int_diff)
  also have "\<dots> = 2 powi int (nat (k - q))" using assms by simp
  also have "\<dots> = of_int (2 ^ nat (k - q))" by (simp only: power_int_of_nat) simp
  finally show ?thesis .
qed

lemma nearest_multiple_fix:
  assumes "q \<le> k"
  shows "nearest_multiple q (of_int n * 2 powi k) = of_int n * 2 powi k"
proof -
  have "of_int n * 2 powi k / 2 powi q = of_int n * ((2::real) powi k / 2 powi q)" by simp
  also have "\<dots> = of_int (n * 2 ^ nat (k - q))"
    by (simp only: pow2_quotient[OF assms] of_int_mult)
  finally have "round_ties_even (of_int n * 2 powi k / 2 powi q) = n * 2 ^ nat (k - q)"
    by (simp only: round_ties_even_of_int)
  then have "nearest_multiple q (of_int n * 2 powi k) =
      of_int n * (of_int (2 ^ nat (k - q)) * 2 powi q)"
    by (simp add: nearest_multiple_def)
  also have "of_int (2 ^ nat (k - q)) * 2 powi q = (2::real) powi k"
    using pow2_quotient[OF assms] by (simp add: field_simps)
  finally show ?thesis .
qed

lemma nearest_multiple_pow2: "q \<le> k \<Longrightarrow> nearest_multiple q (2 powi k) = 2 powi k"
  using nearest_multiple_fix[of q k 1] by simp

lemma nearest_multiple_0 [simp]: "nearest_multiple q 0 = 0"
  by (simp add: nearest_multiple_def round_ties_even_def)

lemma nearest_multiple_small:
  assumes "0 \<le> x" "x < 2 powi q / 2"
  shows "nearest_multiple q x = 0"
proof -
  define y where "y = x / 2 powi q"
  from assms have y: "0 \<le> y" "y < 1 / 2"
    by (simp_all add: y_def field_simps)
  then have "\<lfloor>y\<rfloor> = 0" by (simp add: floor_eq_iff)
  with y have "round_ties_even y = 0"
    by (simp add: round_ties_even_def)
  then show ?thesis by (simp add: nearest_multiple_def y_def)
qed

lemma nearest_multiple_nonneg: "0 \<le> x \<Longrightarrow> 0 \<le> nearest_multiple q x"
  using nearest_multiple_mono[of 0 x q] by simp

lemma nearest_multiple_error: "\<bar>nearest_multiple q x - x\<bar> \<le> 2 powi q / 2"
proof -
  have "nearest_multiple q x - x = (of_int (round_ties_even (x / 2 powi q)) - x / 2 powi q) * 2 powi q"
    by (simp add: nearest_multiple_def field_simps)
  then have "\<bar>nearest_multiple q x - x\<bar> =
      \<bar>of_int (round_ties_even (x / 2 powi q)) - x / 2 powi q\<bar> * 2 powi q"
    by (simp add: abs_mult)
  also have "\<dots> \<le> 1 / 2 * 2 powi q"
    by (intro mult_right_mono round_ties_even_error) simp
  finally show ?thesis by simp
qed

lemma binary64_0 [simp]: "binary64 0 = 0"
  by (simp add: binary64_def)

lemma binary64_nonneg: "0 \<le> x \<Longrightarrow> 0 \<le> binary64 x"
  by (simp add: binary64_def nearest_multiple_nonneg)

lemma binary64_mono:
  assumes "0 \<le> x" "x \<le> y"
  shows "binary64 x \<le> binary64 y"
proof (cases "x = 0")
  case True
  with assms show ?thesis by (simp add: binary64_nonneg)
next
  case False
  with assms have x: "0 < x" and y: "0 < y" by simp_all
  have e: "exponent x \<le> exponent y" using x assms(2) by (rule exponent_mono)
  then have q: "quantum x \<le> quantum y" by (simp add: quantum_def)
  show ?thesis
  proof (cases "quantum x = quantum y")
    case True
    then show ?thesis using assms(2) by (simp add: binary64_def nearest_multiple_mono)
  next
    case False
    with q have lt: "quantum x < quantum y" by simp
    define k where "k = exponent y"
    from lt have k: "exponent x < k" "quantum x \<le> k" "quantum y \<le> k"
      by (simp_all add: quantum_def k_def max_def split: if_splits)
    from exponent_bounds[of x] x have "x < 2 powi (exponent x + 1)" by simp
    also have "\<dots> \<le> 2 powi k" using k(1) by (intro pow2_mono) simp
    finally have xk: "x \<le> 2 powi k" by simp
    from exponent_bounds[of y] y have ky: "2 powi k \<le> y" by (simp add: k_def)
    have "binary64 x \<le> nearest_multiple (quantum x) (2 powi k)"
      unfolding binary64_def using xk by (rule nearest_multiple_mono)
    also have "\<dots> = nearest_multiple (quantum y) (2 powi k)"
      by (simp only: nearest_multiple_pow2[OF k(2)] nearest_multiple_pow2[OF k(3)])
    also have "\<dots> \<le> binary64 y"
      unfolding binary64_def using ky by (rule nearest_multiple_mono)
    finally show ?thesis .
  qed
qed

lemma binary64_idem:
  assumes "0 \<le> x"
  shows "binary64 (binary64 x) = binary64 x"
proof (cases "binary64 x = 0")
  case True
  then show ?thesis by simp
next
  case False
  define v where "v = binary64 x"
  define e where "e = exponent x"
  define n where "n = round_ties_even (x / 2 powi quantum x)"
  have v: "v = of_int n * 2 powi quantum x"
    by (simp add: v_def n_def binary64_def nearest_multiple_def)
  from False assms have x: "0 < x" by (cases "x = 0") simp_all
  have v0: "0 < v" using False binary64_nonneg[OF assms] by (simp add: v_def)
  from exponent_bounds[of x] x have xe: "x < 2 powi (e + 1)" by (simp add: e_def)
  have qe: "quantum x \<le> e + 1"
  proof (rule ccontr)
    assume "\<not> quantum x \<le> e + 1"
    then have "(2::real) powi (e + 1) \<le> 2 powi (quantum x - 1)" by (intro pow2_mono) simp
    with xe have "x < 2 powi quantum x / 2" by (simp add: pow2_pred)
    with x have "v = 0" by (simp add: v_def binary64_def nearest_multiple_small)
    with v0 show False by simp
  qed
  from xe have "x \<le> 2 powi (e + 1)" by simp
  then have "v \<le> nearest_multiple (quantum x) (2 powi (e + 1))"
    unfolding v_def binary64_def by (rule nearest_multiple_mono)
  then have le: "v \<le> 2 powi (e + 1)" by (simp only: nearest_multiple_pow2[OF qe])
  show ?thesis
  proof (cases "v = 2 powi (e + 1)")
    case True
    have "exponent v = e + 1"
    proof (rule exponent_unique)
      show "2 powi (e + 1) \<le> \<bar>v\<bar>" using True by simp
      show "\<bar>v\<bar> < 2 powi (e + 1 + 1)"
        unfolding pow2_Suc[of "e + 1"] using True pow2_pos[of "e + 1"] by simp
    qed
    then have "quantum v \<le> e + 1" using qe by (simp add: quantum_def e_def)
    then have "binary64 v = v"
      unfolding binary64_def True by (simp only: nearest_multiple_pow2)
    then show ?thesis by (simp add: v_def)
  next
    case False
    with le v0 have "\<bar>v\<bar> < 2 powi (e + 1)" by simp
    with v0 have "exponent v < e + 1" by (intro exponent_less) simp_all
    then have "quantum v \<le> quantum x" by (simp add: quantum_def e_def)
    then have "nearest_multiple (quantum v) (of_int n * 2 powi quantum x) = of_int n * 2 powi quantum x"
      by (rule nearest_multiple_fix)
    then have "binary64 v = v" by (simp add: binary64_def v)
    then show ?thesis by (simp add: v_def)
  qed
qed

lemma js_plus_increasing:
  assumes "0 \<le> x" "0 \<le> d"
  shows "binary64 x \<le> js_plus (binary64 x) d"
proof -
  have "binary64 (binary64 x) \<le> binary64 (binary64 x + d)"
    using assms by (intro binary64_mono binary64_nonneg) simp_all
  then show ?thesis by (simp add: js_plus_def binary64_idem[OF assms(1)])
qed

lemma binary64_error:
  assumes "0 \<le> x"
  shows "\<bar>binary64 x - x\<bar> \<le> binary64 x / 2 ^ 53 + 1 / 2 ^ 1075"
proof (cases "- 1022 \<le> exponent x \<and> x \<noteq> 0")
  case True
  then have q: "quantum x = exponent x - 53 + 1" by (simp add: quantum_def)
  from True assms exponent_bounds[of x] have "2 powi exponent x \<le> x" by simp
  then have "nearest_multiple (quantum x) (2 powi exponent x) \<le> binary64 x"
    unfolding binary64_def by (rule nearest_multiple_mono)
  moreover have "quantum x \<le> exponent x" by (simp add: q)
  ultimately have ge: "2 powi exponent x \<le> binary64 x"
    by (simp only: nearest_multiple_pow2)
  have "\<bar>binary64 x - x\<bar> \<le> 2 powi quantum x / 2"
    unfolding binary64_def by (rule nearest_multiple_error)
  also have "\<dots> = 2 powi exponent x / 2 ^ 53"
    unfolding q pow2_Suc by (simp add: power_int_diff)
  also have "\<dots> \<le> binary64 x / 2 ^ 53"
    using ge by (simp add: divide_right_mono)
  finally show ?thesis by simp
next
  case False
  show ?thesis
  proof (cases "x = 0")
    case True
    then show ?thesis by simp
  next
    case nz: False
    with False have q: "quantum x = - 1075 + 1" by (simp add: quantum_def)
    have "\<bar>binary64 x - x\<bar> \<le> 2 powi quantum x / 2"
      unfolding binary64_def by (rule nearest_multiple_error)
    also have "\<dots> = 1 / 2 ^ 1075"
      unfolding q pow2_Suc by (simp add: power_int_minus field_simps)
    finally show ?thesis using binary64_nonneg[OF assms] by (simp add: add_increasing)
  qed
qed

text \<open>
  A sum of a finite non-negative double and a number below \<open>2 powi 970\<close>, half a unit
  in the last place of the largest doubles, does not round beyond \<open>MAX_VALUE\<close>.
\<close>

lemma binary64_pow2:
  assumes "- 1074 \<le> k"
  shows "binary64 (2 powi k) = 2 powi k"
proof -
  have "exponent (2 powi k) = k"
  proof (rule exponent_unique)
    show "2 powi k \<le> \<bar>(2::real) powi k\<bar>" by simp
    show "\<bar>(2::real) powi k\<bar> < 2 powi (k + 1)" unfolding pow2_Suc using pow2_pos[of k] by simp
  qed
  then have "quantum (2 powi k) \<le> k" using assms by (simp add: quantum_def)
  then show ?thesis unfolding binary64_def by (rule nearest_multiple_pow2)
qed

lemma pow2_add_nat: "(2::real) powi (q + int n) = 2 ^ n * 2 powi q"
  by (simp add: power_int_add)

lemma binary64_below:
  assumes x: "0 \<le> x" "x < (2 ^ 53 - 1 / 2) * 2 powi q" and q: "- 1074 \<le> q"
  shows "binary64 x \<le> (2 ^ 53 - 1) * 2 powi q"
proof (cases "x \<le> 2 powi (q + 52)")
  case True
  with x(1) have "binary64 x \<le> binary64 (2 powi (q + 52))" by (rule binary64_mono)
  also have "\<dots> = 2 powi (q + 52)" using q by (intro binary64_pow2) simp
  also have "\<dots> = 2 ^ 52 * 2 powi q" using pow2_add_nat[of q 52] by simp
  also have "\<dots> \<le> (2 ^ 53 - 1) * 2 powi q" by (intro mult_right_mono) simp_all
  finally show ?thesis .
next
  case False
  have "(2 ^ 53 - 1 / 2) * 2 powi q \<le> 2 ^ 53 * (2::real) powi q"
    by (intro mult_right_mono) simp_all
  also have "\<dots> = 2 powi (q + 52 + 1)" using pow2_add_nat[of q 53] by (simp add: add.assoc)
  finally have "\<bar>x\<bar> < 2 powi (q + 52 + 1)" using x by simp
  moreover from False have "2 powi (q + 52) \<le> \<bar>x\<bar>" by simp
  ultimately have "exponent x = q + 52" by (intro exponent_unique)
  then have qx: "quantum x = q" using q by (simp add: quantum_def)
  have "x / 2 powi q < of_int (2 ^ 53) - 1 / 2"
    using x(2) by (simp add: field_simps)
  then have "round_ties_even (x / 2 powi q) \<le> 2 ^ 53 - 1" by (rule round_ties_even_below)
  then have "real_of_int (round_ties_even (x / 2 powi q)) \<le> real_of_int (2 ^ 53 - 1)"
    by (simp only: of_int_le_iff)
  then have "real_of_int (round_ties_even (x / 2 powi q)) * 2 powi q \<le> (2 ^ 53 - 1) * 2 powi q"
    by (intro mult_right_mono) simp_all
  then show ?thesis by (simp only: binary64_def nearest_multiple_def qx)
qed

lemma js_plus_finite:
  assumes "0 \<le> a" "a \<le> MAX_VALUE" "0 \<le> d" "d < 2 powi 970"
  shows "js_plus a d \<le> MAX_VALUE"
proof -
  define P where "P = (2::real) powi 971"
  have half: "(2::real) powi 970 = P / 2" using pow2_pred[of 971] by (simp add: P_def)
  have "a + d < (2 ^ 53 - 1) * P + P / 2"
    using assms(2,4) by (simp only: MAX_VALUE_def half P_def[symmetric])
  also have "\<dots> = (2 ^ 53 - 1 / 2) * P" by (simp add: algebra_simps)
  finally have "a + d < (2 ^ 53 - 1 / 2) * 2 powi 971" by (simp only: P_def)
  with assms(1,3) have "binary64 (a + d) \<le> (2 ^ 53 - 1) * 2 powi 971"
    by (intro binary64_below) simp_all
  then show ?thesis by (simp only: js_plus_def MAX_VALUE_def)
qed

subsection \<open>Retry\<close>

text \<open>
  The loop started at attempt \<open>a\<close> makes between 1 and \<open>MAX_RETRIES - a\<close> calls; all
  but the last fail with a rate-limit error, and the outcome of the last is the result.
\<close>

lemma world_after_Suc: "world_after apiCall (Suc k) w = world_after apiCall k (snd (apiCall w))"
  by (simp add: world_after_def funpow_Suc_right del: funpow.simps)

lemma outcome_Suc: "outcome apiCall (Suc k) w = outcome apiCall k (snd (apiCall w))"
  by (simp add: outcome_def world_after_Suc)

lemma withRetry_loop_calls:
  "attempt < MAX_RETRIES \<Longrightarrow>
   \<exists>n. n < MAX_RETRIES - attempt \<and>
       withRetry_loop apiCall attempt lastError w = (outcome apiCall n w, world_after apiCall (Suc n) w) \<and>
       list_all (\<lambda>k. rate_limited (outcome apiCall k w)) [0..<n] \<and>
       (rate_limited (outcome apiCall n w) \<longrightarrow> Suc n = MAX_RETRIES - attempt)"
proof (induction apiCall attempt lastError w rule: withRetry_loop.induct)
  case (1 apiCall attempt lastError w)
  obtain r w' where call: "apiCall w = (r, w')" by (cases "apiCall w")
  show ?case
  proof (cases "rate_limited r \<and> Suc attempt < MAX_RETRIES")
    case False
    have "withRetry_loop apiCall attempt lastError w = (outcome apiCall 0 w, world_after apiCall (Suc 0) w)"
      using False call "1.prems"
      apply (subst withRetry_loop.simps)
      apply (cases r)
       apply (auto simp: outcome_def world_after_def)
      apply (subst withRetry_loop.simps)
      apply simp
      done
    moreover have "rate_limited (outcome apiCall 0 w) \<longrightarrow> Suc 0 = MAX_RETRIES - attempt"
      using False call "1.prems" by (auto simp: outcome_def world_after_def)
    ultimately show ?thesis using "1.prems"
      by (intro exI[of _ 0]) simp
  next
    case True
    then obtain e where r: "r = Inl e" and rl: "isRateLimitError e" by (cases r) auto
    from "1.IH"[OF "1.prems" call[symmetric] r rl] True
    obtain n where n: "n < MAX_RETRIES - (attempt + 1)"
      "withRetry_loop apiCall (attempt + 1) (Some e) w' = (outcome apiCall n w', world_after apiCall (Suc n) w')"
      "list_all (\<lambda>k. rate_limited (outcome apiCall k w')) [0..<n]"
      "rate_limited (outcome apiCall n w') \<longrightarrow> Suc n = MAX_RETRIES - (attempt + 1)"
      by auto
    have step: "withRetry_loop apiCall attempt lastError w = withRetry_loop apiCall (attempt + 1) (Some e) w'"
      using "1.prems" call r rl by (subst withRetry_loop.simps) simp
    have w': "w' = snd (apiCall w)" using call by simp
    have all: "list_all (\<lambda>k. rate_limited (outcome apiCall k w)) [0..<Suc n]"
      unfolding list_all_iff
    proof
      fix k assume "k \<in> set [0..<Suc n]"
      then have k: "k < Suc n" by auto
      show "rate_limited (outcome apiCall k w)"
      proof (cases k)
        case 0
        then show ?thesis using call r rl by (simp add: outcome_def world_after_def)
      next
        case (Suc j)
        then have "j < n" using k by simp
        then show ?thesis using n(3) Suc by (simp add: list_all_iff outcome_Suc w')
      qed
    qed
    show ?thesis
      apply (rule exI[of _ "Suc n"])
      using n step all "1.prems"
      by (auto simp: outcome_Suc world_after_Suc w' simp del: upt_Suc)
  qed
qed


lemma str_includes_sublist: "str_includes s t \<longleftrightarrow> sublist t s"
  by (induction s) (auto simp: sublist_Cons_right)

text \<open>
  Claim C10. \<^verbatim>\<open>withRetry\<close> invokes the wrapped call at most 5 times: there is an
  \<open>n < 5\<close> such that exactly \<open>n + 1\<close> calls are made, the first \<open>n\<close> of them fail
  with a rate-limit error, and the result is the outcome of the last call. That last
  outcome is a rate-limited failure only when it is the fifth call; so the first success
  is returned, any other error is rethrown at once, and after five rate-limited failures
  the last error is thrown. An error is a rate-limit error exactly when its status is
  \<^verbatim>\<open>RESOURCE_EXHAUSTED\<close>, its httpStatus is 429, or its message contains \<^verbatim>\<open>429\<close>
  or matches \<^verbatim>\<open>/rate limit/i\<close>.
\<close>

theorem withRetry_bounded_retry:
  "(\<exists>n. n < 5 \<and>
        withRetry apiCall w = (outcome apiCall n w, world_after apiCall (Suc n) w) \<and>
        list_all (\<lambda>k. rate_limited (outcome apiCall k w)) [0..<n] \<and>
        (rate_limited (outcome apiCall n w) \<longrightarrow> Suc n = 5)) \<and>
   (isRateLimitError e \<longleftrightarrow>
      (\<exists>st hs msg. e = ErrorObj st hs msg \<and>
         (st = Some ''RESOURCE_EXHAUSTED'' \<or> hs = Some 429 \<or>
          (\<exists>m. msg = Some m \<and> (sublist ''429'' m \<or> sublist ''rate limit'' (map toLowerASCII m))))))"
proof
  show "\<exists>n. n < 5 \<and>
        withRetry apiCall w = (outcome apiCall n w, world_after apiCall (Suc n) w) \<and>
        list_all (\<lambda>k. rate_limited (outcome apiCall k w)) [0..<n] \<and>
        (rate_limited (outcome apiCall n w) \<longrightarrow> Suc n = 5)"
    using withRetry_loop_calls[of 0 apiCall None w]
    by (simp add: withRetry_def MAX_RETRIES_def)
next
  show "isRateLimitError e \<longleftrightarrow>
      (\<exists>st hs msg. e = ErrorObj st hs msg \<and>
         (st = Some ''RESOURCE_EXHAUSTED'' \<or> hs = Some 429 \<or>
          (\<exists>m. msg = Some m \<and> (sublist ''429'' m \<or> sublist ''rate limit'' (map toLowerASCII m)))))"
  proof (cases e)
    case Undefined
    then show ?thesis by simp
  next
    case (ErrorObj st hs msg)
    have "\<not> sublist ''429'' []" "\<not> sublist ''rate limit'' []" by simp_all
    then show ?thesis using ErrorObj
      by (cases msg) (auto simp: rate_limit_regex_test_def str_includes_sublist truthy_def)
  qed
qed


lemma flaky_world: "world_after flaky k 0 = k"
  by (induction k) (simp_all add: world_after_def flaky_def)

lemma exhausted_world: "world_after exhausted k 0 = k"
  by (induction k) (simp_all add: world_after_def exhausted_def)

theorem withRetry_bounded_retry_witness:
  "withRetry flaky 0 = (Inr 42, 3) \<and>
   withRetry exhausted 0 = (Inl (ErrorObj None None (Some ''Rate Limit hit, call 4'')), 5)"
proof
  have o: "\<And>k. outcome flaky k 0 = (if k < 2 then Inl (ErrorObj None (Some 429) None) else Inr 42)"
    by (simp add: outcome_def flaky_world) (simp add: flaky_def)
  from withRetry_bounded_retry[of flaky 0]
  obtain n where n: "n < 5" "withRetry flaky 0 = (outcome flaky n 0, world_after flaky (Suc n) 0)"
    "list_all (\<lambda>k. rate_limited (outcome flaky k 0)) [0..<n]"
    "rate_limited (outcome flaky n 0) \<longrightarrow> Suc n = 5" by blast
  have "\<not> n < 2" using n(1,4) by (auto simp: o)
  moreover have "\<not> 2 < n"
  proof
    assume "2 < n"
    then have "rate_limited (outcome flaky 2 0)" using n(3) by (simp add: list_all_iff)
    then show False by (simp add: o)
  qed
  ultimately have "n = 2" by simp
  then show "withRetry flaky 0 = (Inr 42, 3)" using n(2) by (simp add: o flaky_world)
next
  have o: "\<And>k. outcome exhausted k 0 = Inl (ErrorObj None None (Some (''Rate Limit hit, call '' @ [char_of (48 + k)])))"
    by (simp add: outcome_def exhausted_world) (simp add: exhausted_def)
  have rl: "\<And>k. rate_limited (outcome exhausted k 0)"
    unfolding o by (simp add: rate_limit_regex_test_def) code_simp
  from withRetry_bounded_retry[of exhausted 0]
  obtain n where n: "n < 5" "withRetry exhausted 0 = (outcome exhausted n 0, world_after exhausted (Suc n) 0)"
    "rate_limited (outcome exhausted n 0) \<longrightarrow> Suc n = 5" by blast
  then have "n = 4" using rl by simp
  then show "withRetry exhausted 0 = (Inl (ErrorObj None None (Some ''Rate Limit hit, call 4'')), 5)"
    using n(2) by (simp add: o exhausted_world) code_simp
qed


subsection \<open>base64\<close>

text \<open>
  Decoding inverts encoding: \<^verbatim>\<open>atob(btoa(s)) = s\<close> for every binary string. The
  encoder's output is the alphabet image of the sextets followed by the padding; it
  holds no whitespace, its length is a multiple of 4, and stripping the padding leaves
  the sextets, which are never 1 modulo 4 in number.
\<close>

lemma takeWhile_index: "distinct xs \<Longrightarrow> i < length xs \<Longrightarrow> length (takeWhile (\<lambda>x. x \<noteq> xs ! i) xs) = i"
proof (induction xs arbitrary: i)
  case Nil then show ?case by simp
next
  case (Cons a xs)
  then show ?case by (cases i) auto
qed

lemma distinct_b64_alphabet: "distinct b64_alphabet"
  unfolding b64_alphabet_def by simp

lemma length_b64_alphabet: "length b64_alphabet = 64"
  unfolding b64_alphabet_def by simp

lemma b64_index_char: "n < 64 \<Longrightarrow> b64_index (b64_char n) = Some n"
  by (simp add: b64_index_def b64_char_def takeWhile_index distinct_b64_alphabet length_b64_alphabet)

lemma b64_char_in: "n < 64 \<Longrightarrow> b64_char n \<in> set b64_alphabet"
  by (simp add: b64_char_def length_b64_alphabet)

lemma b64_alphabet_plain: "c \<in> set b64_alphabet \<Longrightarrow> c \<noteq> CHR ''='' \<and> \<not> ascii_whitespace c"
  unfolding b64_alphabet_def ascii_whitespace_def by auto


lemma padding_simps [simp]: "padding (Suc (Suc (Suc n))) = padding n" "padding 0 = 0"
  "padding (Suc 0) = 2" "padding (Suc (Suc 0)) = 1"
  by (simp_all add: padding_def mod_Suc)

lemma btoa_bytes_sextets:
  "btoa_bytes bs = map b64_char (sextets bs) @ replicate (padding (length bs)) CHR ''=''"
  by (induction bs rule: btoa_bytes.induct) (simp_all add: numeral_2_eq_2)

lemma length_sextets:
  "(length (sextets bs) + padding (length bs)) mod 4 = 0"
proof (induction bs rule: sextets.induct)
  case (1 a b c rest)
  have "length (sextets (a # b # c # rest)) + padding (length (a # b # c # rest)) =
        (length (sextets rest) + padding (length rest)) + 4" by simp
  then show ?case using 1 by (simp only: mod_add_self2)
qed simp_all


lemma sextets_lt_64: "list_all (\<lambda>x. x < 256) bs \<Longrightarrow> list_all (\<lambda>x. x < 64) (sextets bs)"
  by (induction bs rule: sextets.induct) auto

lemma hi_lo: "y < n \<Longrightarrow> (x * n + y) div n = (x::nat)" "y < n \<Longrightarrow> (x * n + y) mod n = (y::nat)"
  by simp_all

lemma byte_parts: "b < 256 \<Longrightarrow> b div 16 < (16::nat)" "b < 256 \<Longrightarrow> b div 64 < (4::nat)"
  by simp_all

lemma atob_sextets_sextets: "list_all (\<lambda>x. x < 256) bs \<Longrightarrow> atob_sextets (sextets bs) = bs"
  by (induction bs rule: sextets.induct) (simp_all add: hi_lo byte_parts)

lemma padding_le: "padding n \<le> 2"
proof -
  have "(3 - n mod 3) mod 3 < 3" by (rule mod_less_divisor) simp
  then show ?thesis by (simp add: padding_def)
qed

lemma sextets_Nil_iff: "sextets bs = [] \<longleftrightarrow> bs = []"
  by (cases bs rule: sextets.cases) auto


lemma strip_padding_b64:
  assumes X: "list_all (\<lambda>c. c \<in> set b64_alphabet) X"
    and len: "(length X + k) mod 4 = 0" and k: "k \<le> 2" and e: "X = [] \<longrightarrow> k = 0"
  shows "strip_padding (X @ replicate k CHR ''='') = X"
proof -
  have lastX: "X \<noteq> [] \<Longrightarrow> last X \<noteq> CHR ''=''"
    using X b64_alphabet_plain[of "last X"] by (auto simp: list_all_iff)
  consider "k = 0" | "k = 1" | "k = 2" using k by linarith
  then show ?thesis
  proof cases
    case 1
    then show ?thesis using lastX by (auto simp: strip_padding_def)
  next
    case 2
    then have "X \<noteq> []" using e by auto
    then show ?thesis using 2 len lastX by (simp add: strip_padding_def butlast_append)
  next
    case 3
    then have "X \<noteq> []" using e by auto
    have r: "replicate k CHR ''='' = [CHR ''='', CHR ''='']" using 3 by (simp add: eval_nat_numeral)
    show ?thesis unfolding r using len 3 by (simp add: strip_padding_def butlast_append)
  qed
qed

lemma those_b64_index: "list_all (\<lambda>x. x < 64) sx \<Longrightarrow> those (map b64_index (map b64_char sx)) = Some sx"
  by (induction sx) (simp_all add: b64_index_char)

lemma atob_btoa_bytes:
  assumes bs: "list_all (\<lambda>x. x < 256) bs"
  shows "atob (btoa_bytes bs) = Inr (map char_of bs)"
proof -
  let ?X = "map b64_char (sextets bs)"
  let ?k = "padding (length bs)"
  have sx: "list_all (\<lambda>x. x < 64) (sextets bs)" using bs by (rule sextets_lt_64)
  then have X: "list_all (\<lambda>c. c \<in> set b64_alphabet) ?X"
    by (simp add: list_all_iff b64_char_in)
  have nows: "filter (\<lambda>c. \<not> ascii_whitespace c) (?X @ replicate ?k CHR ''='') = ?X @ replicate ?k CHR ''=''"
  proof (rule filter_True, rule ballI)
    fix c assume "c \<in> set (?X @ replicate ?k CHR ''='')"
    then have "c \<in> set b64_alphabet \<or> c = CHR ''=''" using X by (auto simp: list_all_iff)
    then show "\<not> ascii_whitespace c" using b64_alphabet_plain[of c] by (auto simp: ascii_whitespace_def)
  qed
  have len: "(length ?X + ?k) mod 4 = 0" using length_sextets[of bs] by simp
  have k: "?k \<le> 2" by (rule padding_le)
  have e: "?X = [] \<longrightarrow> ?k = 0" by (simp add: sextets_Nil_iff)
  have strip: "strip_padding (?X @ replicate ?k CHR ''='') = ?X"
    by (rule strip_padding_b64[OF X len k e])
  have not1: "length ?X mod 4 \<noteq> 1"
  proof -
    have "\<And>n k. (n + k) mod 4 = 0 \<Longrightarrow> k \<le> 2 \<Longrightarrow> n mod 4 \<noteq> (1::nat)" by presburger
    from this[OF len k] show ?thesis .
  qed
  show ?thesis
    unfolding atob_def btoa_bytes_sextets nows strip Let_def
    using not1 those_b64_index[OF sx] by (simp add: atob_sextets_sextets[OF bs] comp_def)
qed

lemma atob_btoa: "atob (btoa s) = Inr s"
proof -
  have "list_all (\<lambda>x. x < 256) (map of_char s :: nat list)"
    by (simp add: list_all_iff)
  from atob_btoa_bytes[OF this] show ?thesis
    by (simp add: btoa_def comp_def)
qed


subsection \<open>Codec\<close>

text \<open>
  What the loops of \<^verbatim>\<open>decodeAudioData\<close> store, the result for one channel, and the
  round trip through the bytes and the transport encoding.
\<close>

lemma fill_channel_length [simp]:
  "length (fill_channel dataInt16 numChannels frameCount channel i channelData) = length channelData"
  by (induction dataInt16 numChannels frameCount channel i channelData rule: fill_channel.induct)
     (subst fill_channel.simps, simp)

lemma fill_channel_nth:
  "j < length channelData \<Longrightarrow>
   fill_channel dataInt16 numChannels frameCount channel i channelData ! j =
     (if i \<le> j \<and> real j < frameCount then Int16_sample dataInt16 (j * numChannels + channel)
      else channelData ! j)"
proof (induction dataInt16 numChannels frameCount channel i channelData rule: fill_channel.induct)
  case (1 dataInt16 numChannels frameCount channel i channelData)
  show ?case
  proof (cases "real i < frameCount")
    case True
    then show ?thesis
      using "1.IH"[OF True] "1.prems"
      by (subst fill_channel.simps) (cases "j = i", simp_all add: nth_list_update)
  next
    case False
    then show ?thesis
      by (subst fill_channel.simps) auto
  qed
qed

lemma length_Int16Array_view [simp]: "length (Int16Array_view bytes) = length bytes div 2"
  by (induction bytes rule: Int16Array_view.induct) simp_all

lemma trunc_of_nat_div: "trunc (real m / real n) = int (m div n)"
proof -
  have "\<not> real m / real n < 0" by (simp add: not_less)
  then show ?thesis by (simp add: trunc_def floor_divide_of_nat_eq)
qed

lemma ToUint32_frames: "m < 2 ^ 32 \<Longrightarrow> ToUint32 (real m / real n) = m div n"
proof -
  assume m: "m < 2 ^ 32"
  have "m div n < 2 ^ 32" by (rule order_le_less_trans[OF div_le_dividend m])
  then have "int (m div n) < 2 ^ 32" by (metis of_nat_less_iff of_nat_numeral of_nat_power)
  then show ?thesis
    by (simp add: ToUint32_def trunc_of_nat_div)
qed

lemma decodeAudioData_mono:
  assumes ev: "even (length bytes)" and ne: "bytes \<noteq> []" and len: "length bytes < 2 ^ 32"
    and rate: "8000 \<le> rate" "rate \<le> 96000"
  shows "decodeAudioData bytes rate 1 =
           Inr \<lparr>sampleRateOf = rate,
                channels = [map (\<lambda>w. Num (real_of_int (sint w) / 32768)) (Int16Array_view bytes)]\<rparr>"
proof -
  let ?d = "Int16Array_view bytes"
  let ?L = "length ?d"
  have L: "?L < 2 ^ 32" using order_le_less_trans[OF div_le_dividend len, of 2] by simp
  have Lpos: "0 < ?L" using ev ne by (cases bytes rule: Int16Array_view.cases) auto
  have u: "ToUint32 (real ?L / real 1) = ?L" using ToUint32_frames[OF L, of 1] by simp
  have fill: "fill_channel ?d 1 (real ?L) 0 0 (replicate ?L (Num 0)) =
              map (\<lambda>w. Num (real_of_int (sint w) / 32768)) ?d"
    by (rule nth_equalityI) (simp_all add: fill_channel_nth Int16_sample_def)
  show ?thesis
    using ev Lpos rate u fill
    by (simp add: decodeAudioData_def new_Int16Array_def createBuffer_def)
qed


lemma word_cat_split_16: "word_cat (ucast (drop_bit 8 w) :: 8 word) (ucast w :: 8 word) = (w :: 16 word)"
  by (rule bit_word_eqI) (auto simp add: bit_simps)

lemma Int16Array_view_buffer [simp]: "Int16Array_view (Int16Array_buffer int16) = int16"
  by (induction int16) (simp_all add: Int16Array_buffer_def word_cat_split_16)

lemma length_Int16Array_buffer [simp]: "length (Int16Array_buffer int16) = 2 * length int16"
  by (induction int16) (simp_all add: Int16Array_buffer_def)

lemma byte_char_byte: "word_of_nat (of_char (char_of (unat (b :: 8 word)))) = b"
proof -
  have "unat b < 256" using unsigned_less[of b, where 'a = nat] by simp
  then show ?thesis by simp
qed

lemma decode_encode: "decode (encode bytes) = Inr bytes"
proof -
  have "map (\<lambda>c. word_of_nat (of_char c)) (map (\<lambda>b. char_of (unat b)) bytes) = bytes"
    by (induction bytes) (simp_all only: list.map byte_char_byte)
  then show ?thesis by (simp add: decode_def encode_def atob_btoa)
qed

lemma createBlob_decode_payload:
  assumes ne: "samples \<noteq> []" and len: "length samples < 2 ^ 31"
  shows "decode_payload (blob_data (createBlob samples)) =
           Inr \<lparr>sampleRateOf = 24000,
                channels = [map (\<lambda>v. Num (real_of_int (sint (ToInt16 (times_32768 v))) / 32768)) samples]\<rparr>"
proof -
  let ?int16 = "map (\<lambda>v. ToInt16 (times_32768 v)) samples"
  have 1: "decode (blob_data (createBlob samples)) = Inr (Int16Array_buffer ?int16)"
    by (simp add: createBlob_def decode_encode)
  have 2: "Int16Array_buffer ?int16 \<noteq> []" using ne
    by (metis length_Int16Array_buffer length_map length_0_conv mult_eq_0_iff zero_neq_numeral)
  have 3: "length (Int16Array_buffer ?int16) < 2 ^ 32" using len by simp
  show ?thesis
    unfolding decode_payload_def 1
    using decodeAudioData_mono[OF _ 2 3, of 24000]
    by (simp add: comp_def)
qed

lemma trunc_error: "\<bar>real_of_int (trunc x) - x\<bar> < 1"
  unfolding trunc_def by (auto simp: abs_if) linarith+

lemma trunc_range: "- 32768 \<le> x \<Longrightarrow> x < 32768 \<Longrightarrow> - 32768 \<le> trunc x \<and> trunc x < 32768"
  unfolding trunc_def by (auto simp: le_floor_iff floor_less_iff ceiling_less_iff le_ceiling_iff)

lemma quantize_error:
  assumes "- 1 \<le> x" "x < 1"
  shows "\<bar>real_of_int (sint (ToInt16 (times_32768 (Num x)))) / 32768 - x\<bar> < 1 / 32768"
proof -
  let ?k = "trunc (x * 32768)"
  have r: "- 32768 \<le> ?k \<and> ?k < 32768" using assms by (intro trunc_range) simp_all
  then have s: "sint (word_of_int ?k :: 16 word) = ?k"
    by (simp add: sint_sbintrunc' signed_take_bit_int_eq_self)
  have "\<bar>real_of_int ?k - x * 32768\<bar> < 1" by (rule trunc_error)
  then have "\<bar>(real_of_int ?k - x * 32768) / 32768\<bar> < 1 / 32768"
    by (simp add: abs_divide divide_strict_right_mono)
  then show ?thesis by (simp add: s diff_divide_distrib)
qed

lemma full_scale_wraps: "real_of_int (sint (ToInt16 (times_32768 (Num 1)))) / 32768 = - 1"
  by (simp add: trunc_def)

subsection \<open>The round trip of a clipped frame\<close>

text \<open>
  Claim C1 asks that a frame of 4096 samples in \<open>[-1, 1]\<close>, encoded by
  \<^verbatim>\<open>createBlob\<close> and decoded again with one channel, comes back within \<open>1/32768\<close>
  per sample. At the sample \<open>1.0\<close> the product \<open>32768\<close> does not fit 16 signed bits
  and wraps to \<open>-32768\<close>: the clipped frame comes back with first sample \<open>-1.0\<close>, at
  distance 2 from the input.
\<close>

theorem createBlob_full_scale_wraps:
  "decode_payload (blob_data (createBlob clipped_frame)) =
     Inr \<lparr>sampleRateOf = 24000, channels = [Num (- 1) # replicate 4095 (Num 0)]\<rparr>"
proof -
  have "clipped_frame \<noteq> []" "length clipped_frame < 2 ^ 31"
    by (simp_all add: clipped_frame_def)
  from createBlob_decode_payload[OF this] show ?thesis
    by (simp add: clipped_frame_def trunc_def)
qed

text \<open>
  Below full scale the round trip is within the quantization step, for a frame of any
  length.
\<close>

lemma roundtrip_below_full_scale:
  assumes ne: "samples \<noteq> []" and len: "length samples < 2 ^ 31"
    and range: "list_all (\<lambda>v. \<exists>x. v = Num x \<and> - 1 \<le> x \<and> x < 1) samples"
  shows "\<exists>out. decode_payload (blob_data (createBlob samples)) =
                 Inr \<lparr>sampleRateOf = 24000, channels = [out]\<rparr> \<and>
               length out = length samples \<and>
               (\<forall>i < length samples. \<exists>x y. samples ! i = Num x \<and> out ! i = Num y \<and>
                   \<bar>y - x\<bar> < 1 / 32768)"
proof -
  let ?out = "map (\<lambda>v. Num (real_of_int (sint (ToInt16 (times_32768 v))) / 32768)) samples"
  have "\<forall>i < length samples. \<exists>x y. samples ! i = Num x \<and> ?out ! i = Num y \<and>
          \<bar>y - x\<bar> < 1 / 32768"
  proof (intro allI impI)
    fix i assume i: "i < length samples"
    with range obtain x where x: "samples ! i = Num x" "- 1 \<le> x" "x < 1"
      by (auto simp: list_all_length)
    have "?out ! i = Num (real_of_int (sint (ToInt16 (times_32768 (Num x)))) / 32768)"
      using i x(1) by simp
    with quantize_error[OF x(2,3)] x(1)
    show "\<exists>x y. samples ! i = Num x \<and> ?out ! i = Num y \<and> \<bar>y - x\<bar> < 1 / 32768"
      by blast
  qed
  with createBlob_decode_payload[OF ne len] show ?thesis by simp
qed

subsection \<open>Which payloads \<^verbatim>\<open>decodeAudioData\<close> rejects\<close>

lemma map_update_same: "(map f xs)[a := f (xs ! a)] = map f xs"
proof -
  have "(map f xs)[a := f (xs ! a)] = map f (xs[a := xs ! a])" by (simp only: map_update)
  then show ?thesis by simp
qed

lemma fill_channels_shape:
  "map length (channels (fill_channels dataInt16 numChannels frameCount chs buffer)) =
   map length (channels buffer)"
  by (induction chs arbitrary: buffer) (simp_all add: map_update map_update_same)

lemma fill_channels_rate [simp]:
  "sampleRateOf (fill_channels dataInt16 numChannels frameCount chs buffer) = sampleRateOf buffer"
  by (induction chs arbitrary: buffer) simp_all

lemma decodeAudioData_cases:
  assumes ch: "1 \<le> numChannels" "numChannels \<le> 32" and rate: "8000 \<le> rate" "rate \<le> 96000"
    and len: "length bytes < 2 ^ 32"
  shows "decodeAudioData bytes rate numChannels =
           (if odd (length bytes) then Inl RangeError
            else if length bytes div 2 < numChannels then Inl NotSupportedError
            else Inr (fill_channels (Int16Array_view bytes) numChannels
                        (real (length bytes div 2) / real numChannels) [0..<numChannels]
                        \<lparr>sampleRateOf = rate,
                         channels = replicate numChannels
                           (replicate (length bytes div 2 div numChannels) (Num 0))\<rparr>))"
proof -
  have L: "length bytes div 2 < 2 ^ 32"
    using order_le_less_trans[OF div_le_dividend len, of 2] by simp
  have u: "ToUint32 (real (length bytes div 2) / real numChannels) = length bytes div 2 div numChannels"
    by (rule ToUint32_frames[OF L])
  have z: "length bytes div 2 div numChannels = 0 \<longleftrightarrow> length bytes div 2 < numChannels"
    using ch by (simp add: div_eq_0_iff)
  show ?thesis
    using ch rate z
    by (simp add: decodeAudioData_def new_Int16Array_def createBuffer_def u)
qed

lemma length_six_bytes: "length six_bytes = 6"
  by (simp add: six_bytes_def)

text \<open>
  Claim C6 as stated (failure exactly when the byte length is not a multiple of
  \<open>2 \<times> channelCount\<close>) does not hold: six bytes for two channels are decoded, the
  odd third sample is dropped.
\<close>

theorem decodeAudioData_partial_frame_counterexample:
  "decodeAudioData six_bytes 24000 2 =
     Inr \<lparr>sampleRateOf = 24000, channels = [[Num (513 / 32768)], [Num (1027 / 32768)]]\<rparr> \<and>
   \<not> (2 * 2) dvd length six_bytes"
proof
  have "[0..<2] = [0, Suc 0]" "\<And>x::Float32Array. replicate 2 x = [x, x]"
    by (simp_all add: numeral_2_eq_2)
  then show "decodeAudioData six_bytes 24000 2 =
     Inr \<lparr>sampleRateOf = 24000, channels = [[Num (513 / 32768)], [Num (1027 / 32768)]]\<rparr>"
    by (simp add: six_bytes_def decodeAudioData_def new_Int16Array_def createBuffer_def
        ToUint32_def trunc_def fill_channel.simps Int16_sample_def word_cat_eq)
  show "\<not> (2 * 2) dvd length six_bytes"
    by (simp add: length_six_bytes)
qed

text \<open>
  Claim C6, amended. For 1 to 32 channels and a supported sample rate,
  \<^verbatim>\<open>decodeAudioData\<close> fails exactly when the byte length is odd (the
  \<^verbatim>\<open>RangeError\<close> of the \<^verbatim>\<open>Int16Array\<close> view) or the payload holds less than one
  frame (the \<^verbatim>\<open>NotSupportedError\<close> of \<^verbatim>\<open>createBuffer\<close>); otherwise it returns a
  buffer with the whole frames of the payload. A payload of 3 bytes for one channel
  fails, and one of 4 bytes gives a buffer of 2 samples.
\<close>

theorem decodeAudioData_failure_iff:
  assumes "1 \<le> numChannels" "numChannels \<le> 32" "8000 \<le> rate" "rate \<le> 96000"
    and "length bytes < 2 ^ 32"
  shows "(decodeAudioData bytes rate numChannels = Inl RangeError \<longleftrightarrow> odd (length bytes)) \<and>
         (decodeAudioData bytes rate numChannels = Inl NotSupportedError \<longleftrightarrow>
            even (length bytes) \<and> length bytes div 2 < numChannels) \<and>
         ((\<exists>buffer. decodeAudioData bytes rate numChannels = Inr buffer \<and>
              sampleRateOf buffer = rate \<and>
              map length (channels buffer) =
                replicate numChannels (length bytes div 2 div numChannels)) \<longleftrightarrow>
            even (length bytes) \<and> numChannels \<le> length bytes div 2) \<and>
         decodeAudioData [b0, b1, b2] rate 1 = Inl RangeError \<and>
         decodeAudioData [b0, b1, b2, b3] rate 1 =
           Inr \<lparr>sampleRateOf = rate,
                channels = [[Num (real_of_int (sint (word_cat b1 b0 :: 16 word)) / 32768),
                             Num (real_of_int (sint (word_cat b3 b2 :: 16 word)) / 32768)]]\<rparr>"
proof -
  note c = decodeAudioData_cases[OF assms]
  have 1: "decodeAudioData bytes rate numChannels = Inl RangeError \<longleftrightarrow> odd (length bytes)"
    unfolding c by simp
  have 2: "decodeAudioData bytes rate numChannels = Inl NotSupportedError \<longleftrightarrow>
            even (length bytes) \<and> length bytes div 2 < numChannels"
    unfolding c by simp
  have 3: "(\<exists>buffer. decodeAudioData bytes rate numChannels = Inr buffer \<and>
              sampleRateOf buffer = rate \<and>
              map length (channels buffer) =
                replicate numChannels (length bytes div 2 div numChannels)) \<longleftrightarrow>
            even (length bytes) \<and> numChannels \<le> length bytes div 2"
    unfolding c by (auto simp: fill_channels_shape map_replicate_const)
  have 4: "decodeAudioData [b0, b1, b2] rate 1 = Inl RangeError"
    by (simp add: decodeAudioData_def new_Int16Array_def)
  have 5: "decodeAudioData [b0, b1, b2, b3] rate 1 =
           Inr \<lparr>sampleRateOf = rate,
                channels = [[Num (real_of_int (sint (word_cat b1 b0 :: 16 word)) / 32768),
                             Num (real_of_int (sint (word_cat b3 b2 :: 16 word)) / 32768)]]\<rparr>"
    using decodeAudioData_mono[of "[b0, b1, b2, b3]" rate] assms(3,4) by simp
  from 1 2 3 4 5 show ?thesis by blast
qed

theorem decodeAudioData_failure_iff_witness:
  "decodeAudioData [7, 7, 7] 24000 1 = Inl RangeError \<and>
   decodeAudioData [1, 2] 24000 2 = Inl NotSupportedError \<and>
   (\<exists>buffer. decodeAudioData six_bytes 24000 2 = Inr buffer \<and>
      map length (channels buffer) = [1, 1])"
proof -
  have a: "decodeAudioData [7, 7, 7] 24000 1 = Inl RangeError"
    using decodeAudioData_failure_iff[of 1 24000 "[7, 7, 7]"] by simp
  have b: "decodeAudioData [1, 2] 24000 2 = Inl NotSupportedError"
    using decodeAudioData_failure_iff[of 2 24000 "[1, 2]"] by simp
  have h: "1 \<le> (2::nat)" "(2::nat) \<le> 32" "8000 \<le> (24000::nat)" "(24000::nat) \<le> 96000"
    "length six_bytes < 2 ^ 32"
    by (simp_all add: length_six_bytes)
  note t = decodeAudioData_failure_iff[OF h]
  have "even (length six_bytes) \<and> 2 \<le> length six_bytes div 2"
    by (simp add: length_six_bytes)
  with t obtain buffer where buffer: "decodeAudioData six_bytes 24000 2 = Inr buffer"
    "map length (channels buffer) = replicate 2 (length six_bytes div 2 div 2)"
    by blast
  have "replicate 2 (length six_bytes div 2 div 2) = [1, 1]"
    by (simp add: length_six_bytes) (simp add: numeral_2_eq_2)
  with buffer have c: "\<exists>buffer. decodeAudioData six_bytes 24000 2 = Inr buffer \<and>
      map length (channels buffer) = [1, 1]"
    by simp
  from a b c show ?thesis by blast
qed

subsection \<open>The system instruction\<close>

lemma push_if_Nil_iff:
  "push_if field label medicalContext = [] \<longleftrightarrow>
     medicalContext = [] \<and> (case field of None \<Rightarrow> True | Some v \<Rightarrow> \<not> truthy v)"
  by (simp add: push_if_def split: option.split)

lemma medicalContext_of_Nil_iff: "medicalContext_of m = [] \<longleftrightarrow> \<not> has_medical_field m"
  by (simp add: medicalContext_of_def has_medical_field_def push_if_Nil_iff split: option.split)

text \<open>
  Claim C8. The system instruction is the base persona, then the profile segment, then
  the medical-context segment, in that order; the profile segment is there exactly when
  a profile is given, the medical segment exactly when medical data with at least one
  non-empty field is given, and neither segment is ever empty.
\<close>

theorem systemInstruction_order:
  "systemInstruction userProfile medicalData =
     base_persona @
     (case userProfile of None \<Rightarrow> [] | Some p \<Rightarrow> profile_segment p) @
     (case medicalData of
        None \<Rightarrow> []
      | Some m \<Rightarrow> if has_medical_field m then medical_segment (medicalContext_of m) else []) \<and>
   base_persona \<noteq> [] \<and> profile_segment p' \<noteq> [] \<and> medical_segment c \<noteq> []"
proof -
  have "systemInstruction userProfile medicalData =
     base_persona @
     (case userProfile of None \<Rightarrow> [] | Some p \<Rightarrow> profile_segment p) @
     (case medicalData of
        None \<Rightarrow> []
      | Some m \<Rightarrow> if has_medical_field m then medical_segment (medicalContext_of m) else [])"
    by (simp add: systemInstruction_def medicalContext_of_Nil_iff split: option.split)
  moreover have "base_persona \<noteq> []" by (simp add: base_persona_def)
  moreover have "profile_segment p' \<noteq> []" by (simp add: profile_segment_def)
  moreover have "medical_segment c \<noteq> []" by (simp add: medical_segment_def)
  ultimately show ?thesis by blast
qed

lemma systemInstruction_example:
  "systemInstruction (Some example_profile) (Some example_medical) =
     base_persona @
     ''\<newline>\<newline>User Profile: Skin Type: oily. Known Allergies: nickel, latex. Skincare Goals: less redness. Tailor advice to this profile.'' @
     ''\<newline>\<newline>User Medical Context: Medical History: eczema; Lab Work: none. Keep this in mind for all advice, especially regarding safety, interactions, and contraindications.''"
  by (simp add: systemInstruction_def example_profile_def example_medical_def profile_segment_def
      medical_segment_def medicalContext_of_def push_if_def truthy_def or_else_def)

subsection \<open>Capture and transcripts: what a session can reach\<close>

text \<open>
  A property kept by scheduling and by stopping all audio holds after the message
  callback of the chat screen (\<open>callbacks_onmessage_cases\<close>). Neither the frames sent
  nor the history are touched by teardown or playback.
\<close>

lemma stopMic_sent_media [simp]: "sent_media (fst (stopMic r s)) = sent_media s"
  by (simp add: stopMic_def Let_def split: option.split prod.split)

lemma stopMic_chatHistory [simp]: "chatHistory (fst (stopMic r s)) = chatHistory s"
  by (simp add: stopMic_def Let_def split: option.split prod.split)

lemma callbacks_onmessage_cases:
  assumes base: "P s"
    and sched: "\<And>b s. P s \<Longrightarrow> P (fst (schedule_audio b currentTime s))"
    and stop: "\<And>s. P s \<Longrightarrow> P (fst (stop_all_audio s))"
  shows "P (fst (callbacks_onmessage message currentTime s))"
proof (cases "outputAudioContextRef s \<and> outputNodeRef s")
  case False
  then show ?thesis using base by (auto simp: callbacks_onmessage_def)
next
  case refs: True
  show ?thesis
  proof (cases "base64Audio_of message")
    case (Inl e)
    then show ?thesis using refs base by (simp add: callbacks_onmessage_def)
  next
    case (Inr base64Audio)
    define after where "after =
      (case base64Audio of
         None \<Rightarrow> (s, None)
       | Some b \<Rightarrow> if truthy b then schedule_audio b currentTime s else (s, None))"
    have P_after: "P (fst after)"
      by (simp add: after_def sched base split: option.split)
    have cb: "callbacks_onmessage message currentTime s =
      (case after of
         (s1, Some e) \<Rightarrow> (s1, Some e)
       | (s1, None) \<Rightarrow> if interrupted message then stop_all_audio s1 else (s1, None))"
      using refs Inr by (simp add: callbacks_onmessage_def after_def)
    obtain s1 err where after: "after = (s1, err)" by (cases after)
    then have "P s1" using P_after by simp
    then show ?thesis
      unfolding cb after by (cases err) (simp_all add: stop)
  qed
qed

lemma schedule_audio_sent_media: "sent_media (fst (schedule_audio b t s)) = sent_media s"
  by (simp add: schedule_audio_def Let_def split: sum.split)

lemma stop_all_audio_sent_media: "sent_media (fst (stop_all_audio s)) = sent_media s"
  by (simp add: stop_all_audio_def split: prod.split option.split)

lemma schedule_audio_chatHistory: "chatHistory (fst (schedule_audio b t s)) = chatHistory s"
  by (simp add: schedule_audio_def Let_def split: sum.split)

lemma stop_all_audio_chatHistory: "chatHistory (fst (stop_all_audio s)) = chatHistory s"
  by (simp add: stop_all_audio_def split: prod.split option.split)

lemma callbacks_onmessage_sent_media [simp]:
  "sent_media (fst (callbacks_onmessage message currentTime s)) = sent_media s"
  by (rule callbacks_onmessage_cases) (simp_all add: schedule_audio_sent_media stop_all_audio_sent_media)

lemma callbacks_onmessage_chatHistory [simp]:
  "chatHistory (fst (callbacks_onmessage message currentTime s)) = chatHistory s"
  by (rule callbacks_onmessage_cases) (simp_all add: schedule_audio_chatHistory stop_all_audio_chatHistory)

lemma handle_transcription_sent_media [simp]:
  "sent_media (handle_transcription r message s) = sent_media s"
  by (simp add: handle_transcription_def onTranscription_def onTurnComplete_def Let_def
      split: option.split)

text \<open>
  The tap forwards a frame only to the session its render saw; with none, nothing is
  ever sent, whatever happens afterwards.
\<close>

lemma handle_sent_media:
  "r_liveSession r = None \<Longrightarrow> sent_media (fst (handle r ev s)) = sent_media s"
  by (cases ev)
     (simp_all add: onaudioprocess_def onopen_def startMic_connected_def startMic_catch_def
        live_onmessage_def onerror_def onclose_def source_ended_def)

lemma run_sent_media:
  "r_liveSession r = None \<Longrightarrow> sent_media (run r evs s) = sent_media s"
  by (induction evs arbitrary: s) (simp_all add: handle_sent_media)

lemma voice_session_sends_nothing:
  "liveSession s = None \<Longrightarrow> sent_media (voice_session s stream scriptProcessor evs) = sent_media s"
  by (simp add: voice_session_def run_sent_media render_def startMic_begin_def)

text \<open>
  The end of a turn pushes the accumulators its render saw; when they were empty, the
  history is never changed.
\<close>

lemma handle_transcription_chatHistory:
  "r_currentInputTranscription r = [] \<Longrightarrow> r_currentOutputTranscription r = [] \<Longrightarrow>
   chatHistory (handle_transcription r message s) = chatHistory s"
  by (simp add: handle_transcription_def onTranscription_def onTurnComplete_def Let_def truthy_def
      split: option.split)

lemma handle_chatHistory:
  "r_currentInputTranscription r = [] \<Longrightarrow> r_currentOutputTranscription r = [] \<Longrightarrow>
   chatHistory (fst (handle r ev s)) = chatHistory s"
  by (cases ev)
     (simp_all add: onaudioprocess_def processAudioChunk_def onopen_def startMic_connected_def
        startMic_catch_def live_onmessage_def onerror_def onclose_def source_ended_def
        handle_transcription_chatHistory split: option.split)

lemma run_chatHistory:
  "r_currentInputTranscription r = [] \<Longrightarrow> r_currentOutputTranscription r = [] \<Longrightarrow>
   chatHistory (run r evs s) = chatHistory s"
  by (induction evs arbitrary: s) (simp_all add: handle_chatHistory)

lemma voice_session_commits_nothing:
  "currentInputTranscription s = [] \<Longrightarrow> currentOutputTranscription s = [] \<Longrightarrow>
   chatHistory (voice_session s stream scriptProcessor evs) = chatHistory s"
  by (simp add: voice_session_def run_chatHistory render_def startMic_begin_def)

text \<open>
  Claim C3 asks that frames captured before the session has opened are dropped and
  frames captured afterwards are forwarded. The first half holds. The second does not:
  the tap tests the \<^verbatim>\<open>liveSession\<close> constant of the render in which
  \<^verbatim>\<open>startMic\<close> ran, which stays \<^verbatim>\<open>null\<close> when \<^verbatim>\<open>setLiveSession\<close> updates
  the state. After three ticks, the open event and the resolved connection, two more
  ticks are dropped as well, although the state then holds the session.
\<close>

theorem frames_after_open_are_dropped:
  "sent_media
     (voice_session (mounted h) stream scriptProcessor
        [AudioProcess f1, AudioProcess f2, AudioProcess f3, Opened, Connected session,
         AudioProcess f4, AudioProcess f5]) = [] \<and>
   liveSession
     (voice_session (mounted h) stream scriptProcessor
        [AudioProcess f1, AudioProcess f2, AudioProcess f3, Opened, Connected session]) =
     Some session"
  by (simp add: voice_session_def mounted_def render_def startMic_begin_def onaudioprocess_def
      onopen_def startMic_connected_def)

text \<open>
  Claim C2 asks that, after the output accumulator received \<^verbatim>\<open>hello\<close>, the end of
  the turn appends one assistant message \<^verbatim>\<open>hello\<close> to the log. The callback tests
  and pushes the accumulators of the render in which \<^verbatim>\<open>startMic\<close> ran, which are
  empty: the state holds \<^verbatim>\<open>hello\<close> before the turn ends, and afterwards the
  accumulators are cleared and the log is the one the component was mounted with.
\<close>

theorem turn_complete_commits_nothing:
  "currentOutputTranscription
     (voice_session (mounted h) stream scriptProcessor
        [Opened, Connected session, ServerMessage (output_delta ''hello'') t1]) = ''hello'' \<and>
   currentInputTranscription
     (voice_session (mounted h) stream scriptProcessor
        [Opened, Connected session, ServerMessage (output_delta ''hello'') t1]) = [] \<and>
   chatHistory
     (voice_session (mounted h) stream scriptProcessor
        [Opened, Connected session, ServerMessage (output_delta ''hello'') t1,
         ServerMessage turn_complete t2]) = h \<and>
   currentOutputTranscription
     (voice_session (mounted h) stream scriptProcessor
        [Opened, Connected session, ServerMessage (output_delta ''hello'') t1,
         ServerMessage turn_complete t2]) = []"
  by (simp add: voice_session_def mounted_def render_def startMic_begin_def
      onopen_def startMic_connected_def live_onmessage_def handle_transcription_def
      onTranscription_def onTurnComplete_def callbacks_onmessage_def base64Audio_of_def
      output_delta_def turn_complete_def empty_message_def truthy_def)

subsection \<open>Some payloads\<close>

text \<open>Payloads of two, three, four and six zero bytes.\<close>

lemma b64_index_A: "b64_index CHR ''A'' = Some 0"
  by (simp add: b64_index_def b64_alphabet_def)

lemma decode_AAA: "decode ''AAA='' = Inr [0, 0]"
  by (simp add: decode_def atob_def strip_padding_def ascii_whitespace_def b64_index_A)

lemma decode_AAAA: "decode ''AAAA'' = Inr [0, 0, 0]"
  by (simp add: decode_def atob_def strip_padding_def ascii_whitespace_def b64_index_A)

lemma decode_payload_AAA:
  "decode_payload ''AAA='' = Inr \<lparr>sampleRateOf = 24000, channels = [[Num 0]]\<rparr>"
  using decodeAudioData_mono[of "[0, 0]" 24000]
  by (simp add: decode_payload_def decode_AAA)

lemma decode_payload_AAAA: "decode_payload ''AAAA'' = Inl RangeError"
  by (simp add: decode_payload_def decode_AAAA decodeAudioData_def new_Int16Array_def)

lemma decode_AAAAAA: "decode ''AAAAAA=='' = Inr [0, 0, 0, 0]"
  by (simp add: decode_def atob_def strip_padding_def ascii_whitespace_def b64_index_A)

lemma decode_AAAAAAAA: "decode ''AAAAAAAA'' = Inr [0, 0, 0, 0, 0, 0]"
  by (simp add: decode_def atob_def strip_padding_def ascii_whitespace_def b64_index_A)

lemma decode_payload_AAAAAA:
  "decode_payload ''AAAAAA=='' = Inr \<lparr>sampleRateOf = 24000, channels = [[Num 0, Num 0]]\<rparr>"
  using decodeAudioData_mono[of "[0, 0, 0, 0]" 24000]
  by (simp add: decode_payload_def decode_AAAAAA)

lemma decode_payload_AAAAAAAA:
  "decode_payload ''AAAAAAAA'' =
     Inr \<lparr>sampleRateOf = 24000, channels = [[Num 0, Num 0, Num 0]]\<rparr>"
  using decodeAudioData_mono[of "[0, 0, 0, 0, 0, 0]" 24000]
  by (simp add: decode_payload_def decode_AAAAAAAA)

text \<open>Evaluating the arithmetic of doubles on numerals, and the duration of one frame.\<close>

lemmas double_eval =
  js_plus_def js_divide_def binary64_def quantum_def nearest_multiple_def round_ties_even_def
  exponent.simps Let_def power_int_minus

lemma duration_one_frame:
  "duration \<lparr>sampleRateOf = 24000, channels = [[Num 0]]\<rparr> =
     6148914691236517 / 147573952589676412928"
  by (simp add: duration_def double_eval)

lemma base64Audio_of_audio_delta [simp]: "base64Audio_of (audio_delta b) = Inr (Some b)"
  by (simp add: base64Audio_of_def audio_delta_def empty_message_def)

lemma interrupted_audio_delta [simp]: "\<not> interrupted (audio_delta b)"
  by (simp add: audio_delta_def empty_message_def)

subsection \<open>Teardown\<close>

text \<open>
  The transcription part of a message touches only the accumulators and the history.
  Every handler keeps the source nodes started and the output refs in place.
\<close>

lemma handle_transcription_frame [simp]:
  "isListening (handle_transcription r message s) = isListening s"
  "liveSession (handle_transcription r message s) = liveSession s"
  "micStream (handle_transcription r message s) = micStream s"
  "audioInputProcessor (handle_transcription r message s) = audioInputProcessor s"
  "sessionError (handle_transcription r message s) = sessionError s"
  "outputAudioContextRef (handle_transcription r message s) = outputAudioContextRef s"
  "outputNodeRef (handle_transcription r message s) = outputNodeRef s"
  "audioSourcesRef (handle_transcription r message s) = audioSourcesRef s"
  "nextStartTimeRef (handle_transcription r message s) = nextStartTimeRef s"
  "created_nodes (handle_transcription r message s) = created_nodes s"
  "stopped_nodes (handle_transcription r message s) = stopped_nodes s"
  "stopped_streams (handle_transcription r message s) = stopped_streams s"
  "disconnected_processors (handle_transcription r message s) = disconnected_processors s"
  "closed_sessions (handle_transcription r message s) = closed_sessions s"
  "console (handle_transcription r message s) = console s"
  by (simp_all add: handle_transcription_def onTranscription_def onTurnComplete_def Let_def
      split: option.split)

lemma stop_sources_started:
  "list_all started sources \<Longrightarrow>
   stop_sources sources stopped = (stopped @ map node_id sources, None)"
  by (induction sources arbitrary: stopped) simp_all

lemma stop_sources_completes:
  "stop_sources sources stopped = (stopped', None) \<Longrightarrow>
   list_all started sources \<and> stopped' = stopped @ map node_id sources"
proof (induction sources arbitrary: stopped)
  case Nil
  then show ?case by simp
next
  case (Cons source rest)
  show ?case
  proof (cases "started source")
    case True
    with Cons.prems have "stop_sources rest (stopped @ [node_id source]) = (stopped', None)"
      by simp
    from Cons.IH[OF this] True show ?thesis by simp
  next
    case False
    with Cons.prems show ?thesis by simp
  qed
qed

lemma stopMic_started:
  assumes "sources_started s"
  shows "\<exists>s'. stopMic r s = (s', None) \<and> idle s'"
  using assms
  by (simp add: stopMic_def Let_def sources_started_def stop_sources_started idle_def
      split: option.split)

lemma stopMic_idle:
  assumes "idle s"
  shows "stopMic (render s) s = (s, None)"
  using assms by (simp add: stopMic_def render_def idle_def)

lemma schedule_audio_sources_started:
  "sources_started s \<Longrightarrow> sources_started (fst (schedule_audio b t s))"
  by (simp add: schedule_audio_def Let_def sources_started_def split: sum.split)

lemma stop_all_audio_sources_started:
  "sources_started s \<Longrightarrow> sources_started (fst (stop_all_audio s))"
  by (simp add: stop_all_audio_def sources_started_def split: prod.split option.split)

lemma stopMic_sources_started:
  "sources_started s \<Longrightarrow> sources_started (fst (stopMic r s))"
  by (simp add: stopMic_def Let_def sources_started_def split: prod.split option.split)

lemma handle_sources_started:
  "sources_started s \<Longrightarrow> sources_started (fst (handle r ev s))"
proof (cases ev)
  case (ServerMessage message currentTime)
  assume s: "sources_started s"
  then have "sources_started (handle_transcription r message s)"
    by (simp add: sources_started_def)
  then show ?thesis
    unfolding ServerMessage handle.simps live_onmessage_def
    by (rule callbacks_onmessage_cases)
       (simp_all add: schedule_audio_sources_started stop_all_audio_sources_started)
next
  case SessionFailed
  assume "sources_started s"
  then have "sources_started (s\<lparr>console := console s @ [''Live session error:''],
      sessionError := Some ''Live conversation error. Please try again.''\<rparr>)"
    by (simp add: sources_started_def)
  then show ?thesis
    unfolding SessionFailed handle.simps onerror_def by (rule stopMic_sources_started)
qed (simp_all add: stopMic_sources_started onclose_def,
     simp_all add: sources_started_def onaudioprocess_def processAudioChunk_def onopen_def
        startMic_connected_def startMic_catch_def source_ended_def list_all_iff
        split: option.split)

lemma reachable_sources_started: "reachable s \<Longrightarrow> sources_started s"
proof (induction rule: reachable.induct)
  case reachable_mounted
  then show ?case by (simp add: sources_started_def mounted_def)
next
  case (reachable_start s r userMedia)
  then show ?case
    by (simp add: sources_started_def startMic_begin_def startMic_catch_def
        split: sum.split prod.split)
next
  case (reachable_handle s r ev)
  from reachable_handle.IH show ?case by (rule handle_sources_started)
qed

lemma reachable_run: "reachable s \<Longrightarrow> reachable (run r evs s)"
  by (induction evs arbitrary: s) (simp_all add: reachable_handle)

lemma reachable_voice_session:
  "reachable s \<Longrightarrow> reachable (voice_session s stream scriptProcessor evs)"
  unfolding voice_session_def by (intro reachable_run reachable_start)

lemma stopMic_refs:
  "outputAudioContextRef (fst (stopMic r s)) = outputAudioContextRef s \<and>
   outputNodeRef (fst (stopMic r s)) = outputNodeRef s"
  by (simp add: stopMic_def Let_def split: option.split prod.split)

lemma schedule_audio_refs:
  "outputAudioContextRef (fst (schedule_audio b t s)) = outputAudioContextRef s \<and>
   outputNodeRef (fst (schedule_audio b t s)) = outputNodeRef s"
  by (simp add: schedule_audio_def Let_def split: sum.split)

lemma stop_all_audio_refs:
  "outputAudioContextRef (fst (stop_all_audio s)) = outputAudioContextRef s \<and>
   outputNodeRef (fst (stop_all_audio s)) = outputNodeRef s"
  by (simp add: stop_all_audio_def split: prod.split option.split)

lemma handle_refs:
  assumes "outputAudioContextRef s \<and> outputNodeRef s"
  shows "outputAudioContextRef (fst (handle r ev s)) \<and> outputNodeRef (fst (handle r ev s))"
proof (cases ev)
  case (ServerMessage message currentTime)
  have "outputAudioContextRef (handle_transcription r message s) \<and>
        outputNodeRef (handle_transcription r message s)"
    using assms by simp
  then show ?thesis
    unfolding ServerMessage handle.simps live_onmessage_def
    by (rule callbacks_onmessage_cases) (simp_all add: schedule_audio_refs stop_all_audio_refs)
qed (use assms in \<open>simp_all add: stopMic_refs onerror_def onclose_def onaudioprocess_def
       processAudioChunk_def onopen_def startMic_connected_def startMic_catch_def
       source_ended_def split: option.split\<close>)

lemma reachable_refs: "reachable s \<Longrightarrow> outputAudioContextRef s \<and> outputNodeRef s"
proof (induction rule: reachable.induct)
  case reachable_mounted
  then show ?case by (simp add: mounted_def)
next
  case (reachable_start s r userMedia)
  then show ?case
    by (simp add: startMic_begin_def startMic_catch_def split: sum.split prod.split)
next
  case (reachable_handle s r ev)
  from reachable_handle.IH show ?case by (rule handle_refs)
qed

text \<open>
  Claim C7. In a state where every node of the source set has been started, and every
  reachable state is one, \<^verbatim>\<open>stopMic\<close> of whichever render does not throw and leaves
  the idle state: no stream, processor or session, not listening, both transcription
  accumulators empty, no source node, playback clock 0. Stopping again is then a no-op,
  as is stopping in any state that is already idle.
\<close>

theorem stopMic_idempotent:
  "(reachable s0 \<longrightarrow> sources_started s0) \<and>
   (sources_started s \<longrightarrow>
      (\<exists>s'. stopMic r s = (s', None) \<and> idle s' \<and> stopMic (render s') s' = (s', None))) \<and>
   (idle s \<longrightarrow> stopMic (render s) s = (s, None))"
proof (intro conjI impI)
  assume "reachable s0"
  then show "sources_started s0" by (rule reachable_sources_started)
next
  assume "sources_started s"
  then obtain s' where s': "stopMic r s = (s', None)" "idle s'"
    using stopMic_started by blast
  from s'(2) have "stopMic (render s') s' = (s', None)" by (rule stopMic_idle)
  with s' show "\<exists>s'. stopMic r s = (s', None) \<and> idle s' \<and> stopMic (render s') s' = (s', None)"
    by blast
next
  assume "idle s"
  then show "stopMic (render s) s = (s, None)" by (rule stopMic_idle)
qed

lemma playing_state:
  "audioSourcesRef playing =
     [\<lparr>node_id = 0, node_buffer = \<lparr>sampleRateOf = 24000, channels = [[Num 0]]\<rparr>, started = True,
       start_time = 0\<rparr>] \<and>
   currentOutputTranscription playing = ''hi'' \<and> liveSession playing = Some 7 \<and>
   micStream playing = Some 1 \<and> isListening playing = True \<and>
   nextStartTimeRef playing = 6148914691236517 / 147573952589676412928"
  by (simp add: playing_def voice_session_def mounted_def render_def startMic_begin_def
      onopen_def startMic_connected_def live_onmessage_def handle_transcription_def
      onTranscription_def callbacks_onmessage_def base64Audio_of_def schedule_audio_def
      output_delta_def audio_delta_def empty_message_def truthy_def decode_payload_AAA
      duration_one_frame double_eval)

theorem stopMic_idempotent_witness:
  "reachable playing \<and> sources_started playing \<and> \<not> idle playing \<and>
   (\<exists>s'. stopMic (render (mounted [])) playing = (s', None) \<and> idle s' \<and>
         stopMic (render s') s' = (s', None)) \<and>
   idle (mounted []) \<and> stopMic (render (mounted [])) (mounted []) = ((mounted []), None)"
proof -
  have r: "reachable playing"
    unfolding playing_def by (intro reachable_voice_session reachable_mounted)
  have n: "\<not> idle playing" using playing_state by (simp add: idle_def)
  have i: "idle (mounted [])" by (simp add: idle_def mounted_def)
  from stopMic_idempotent[of playing playing "render (mounted [])"]
    stopMic_idempotent[of "mounted []" "mounted []"] r n i
  show ?thesis by blast
qed


lemma reachable_playing: "reachable playing"
  unfolding playing_def by (intro reachable_voice_session reachable_mounted)

subsection \<open>Playback scheduling\<close>

lemma duration_nonneg: "0 \<le> duration b"
  by (simp add: duration_def js_divide_def binary64_nonneg)

lemma js_plus_nonneg: "0 \<le> a \<Longrightarrow> 0 \<le> b \<Longrightarrow> 0 \<le> js_plus a b"
  by (simp add: js_plus_def binary64_nonneg)

lemma js_plus_error:
  "0 \<le> a \<Longrightarrow> 0 \<le> b \<Longrightarrow> \<bar>js_plus a b - (a + b)\<bar> \<le> js_plus a b / 2 ^ 53 + 1 / 2 ^ 1075"
  unfolding js_plus_def by (rule binary64_error) simp

lemma js_plus_js_plus:
  assumes "0 \<le> a" "0 \<le> b" "0 \<le> d"
  shows "js_plus a b \<le> js_plus (js_plus a b) d"
  unfolding js_plus_def[of a b] using assms by (intro js_plus_increasing) simp_all

text \<open>
  A decoded payload has fewer than \<open>2 ^ 32\<close> sample frames at 24000 Hz, so the clock
  stays a finite double whenever the current time of the output context is one.
\<close>

lemma ToUint32_less: "ToUint32 x < 2 ^ 32"
proof -
  have "trunc x mod 2 ^ 32 < 2 ^ 32" by simp
  then show ?thesis unfolding ToUint32_def by (simp add: nat_less_iff)
qed

lemma decode_payload_shape:
  assumes "decode_payload b = Inr audioBuffer"
  shows "sampleRateOf audioBuffer = 24000 \<and> length (channels audioBuffer ! 0) < 2 ^ 32"
proof -
  from assms obtain bytes where "decodeAudioData bytes 24000 1 = Inr audioBuffer"
    by (auto simp: decode_payload_def split: sum.splits)
  then obtain dataInt16 frameCount buffer where
    b: "createBuffer 1 frameCount 24000 = Inr buffer"
    and a: "audioBuffer = fill_channels dataInt16 1 frameCount [0..<1] buffer"
    by (auto simp: decodeAudioData_def Let_def split: sum.splits)
  from b have buffer: "buffer = \<lparr>sampleRateOf = 24000, channels = [replicate (ToUint32 frameCount) (Num 0)]\<rparr>"
    by (auto simp: createBuffer_def split: if_splits)
  have "map length (channels audioBuffer) = [ToUint32 frameCount]"
    unfolding a by (simp only: fill_channels_shape) (simp add: buffer)
  then obtain c where "channels audioBuffer = [c]" "length c = ToUint32 frameCount"
    by (cases "channels audioBuffer") auto
  then show ?thesis using ToUint32_less[of frameCount] by (simp add: a buffer)
qed

lemma decode_payload_duration:
  assumes "decode_payload b = Inr audioBuffer"
  shows "duration audioBuffer \<le> 2 powi 18"
proof -
  from decode_payload_shape[OF assms]
  have r: "sampleRateOf audioBuffer = 24000" and l: "length (channels audioBuffer ! 0) < 2 ^ 32"
    by simp_all
  from l have "real (length (channels audioBuffer ! 0)) \<le> 2 ^ 32"
    by (metis less_imp_le of_nat_le_iff of_nat_numeral of_nat_power)
  then have "real (length (channels audioBuffer ! 0)) / 24000 \<le> 2 powi 18" by simp
  then have "binary64 (real (length (channels audioBuffer ! 0)) / 24000) \<le> binary64 (2 powi 18)"
    by (intro binary64_mono) simp_all
  also have "\<dots> = 2 powi 18" by (rule binary64_pow2) simp
  finally show ?thesis by (simp add: duration_def js_divide_def r)
qed

lemma schedule_audio_finite:
  assumes "0 \<le> currentTime" "currentTime \<le> MAX_VALUE" "nextStartTimeRef s \<le> MAX_VALUE"
  shows "nextStartTimeRef (fst (schedule_audio base64Audio currentTime s)) \<le> MAX_VALUE"
proof (cases "decode_payload base64Audio")
  case (Inl e)
  with assms show ?thesis by (simp add: schedule_audio_def)
next
  case (Inr audioBuffer)
  have "duration audioBuffer \<le> 2 powi 18" using Inr by (rule decode_payload_duration)
  also have "\<dots> < 2 powi 970" by (rule pow2_strict_mono) simp
  finally have "js_plus (max (nextStartTimeRef s) currentTime) (duration audioBuffer) \<le> MAX_VALUE"
    using assms duration_nonneg[of audioBuffer] by (intro js_plus_finite) simp_all
  with assms Inr show ?thesis by (simp add: schedule_audio_def Let_def)
qed

lemma live_onmessage_schedules:
  assumes refs: "outputAudioContextRef s \<and> outputNodeRef s"
    and audio: "base64Audio_of message = Inr (Some b)" "truthy b" "decode_payload b = Inr audioBuffer"
    and ni: "\<not> interrupted message"
    and t: "0 \<le> max (nextStartTimeRef s) currentTime"
  shows "live_onmessage r message currentTime s =
           (scheduled (handle_transcription r message s) audioBuffer
              (max (nextStartTimeRef s) currentTime), None)"
proof -
  have "\<not> max (nextStartTimeRef s) currentTime < 0" using t by (simp only: not_less)
  then show ?thesis
    using refs audio ni
    by (simp add: live_onmessage_def callbacks_onmessage_def schedule_audio_def scheduled_def
        Let_def)
qed

lemma scheduled_fields [simp]:
  "outputAudioContextRef (scheduled s audioBuffer startAt) = outputAudioContextRef s"
  "outputNodeRef (scheduled s audioBuffer startAt) = outputNodeRef s"
  "nextStartTimeRef (scheduled s audioBuffer startAt) = js_plus startAt (duration audioBuffer)"
  "created_nodes (scheduled s audioBuffer startAt) = Suc (created_nodes s)"
  "audioSourcesRef (scheduled s audioBuffer startAt) = audioSourcesRef s @
         [\<lparr>node_id = created_nodes s, node_buffer = audioBuffer, started = True,
           start_time = startAt\<rparr>]"
  by (simp_all add: scheduled_def)

text \<open>
  Claim C4 as stated has the three buffers span exactly \<open>d1 + d2 + d3\<close>. The clock is
  advanced by one rounded addition per buffer. From the mounted component, three deltas
  of one sample frame each arrive when the output context is at half a second: the
  clock ends at \<^verbatim>\<open>0.5001250000000002\<close>, and the span from the first start to there is
  neither the exact sum of the three durations nor their sum in doubles.
\<close>

theorem gapless_scheduling_rounding_counterexample:
  "duration \<lparr>sampleRateOf = 24000, channels = [[Num 0]]\<rparr> =
     6148914691236517 / 147573952589676412928 \<and>
   decode_payload ''AAA='' = Inr \<lparr>sampleRateOf = 24000, channels = [[Num 0]]\<rparr> \<and>
   map start_time
     (audioSourcesRef
        (run (render (mounted []))
           [ServerMessage (audio_delta ''AAA='') (1 / 2),
            ServerMessage (audio_delta ''AAA='') (1 / 2),
            ServerMessage (audio_delta ''AAA='') (1 / 2)] (mounted []))) =
     [1 / 2, 1125993731834861 / 2251799813685248, 563043778413549 / 1125899906842624] \<and>
   nextStartTimeRef
     (run (render (mounted []))
        [ServerMessage (audio_delta ''AAA='') (1 / 2),
         ServerMessage (audio_delta ''AAA='') (1 / 2),
         ServerMessage (audio_delta ''AAA='') (1 / 2)] (mounted [])) =
     1126181381819335 / 2251799813685248 \<and>
   nextStartTimeRef
     (run (render (mounted []))
        [ServerMessage (audio_delta ''AAA='') (1 / 2),
         ServerMessage (audio_delta ''AAA='') (1 / 2),
         ServerMessage (audio_delta ''AAA='') (1 / 2)] (mounted [])) - 1 / 2 \<noteq>
     duration \<lparr>sampleRateOf = 24000, channels = [[Num 0]]\<rparr> +
     duration \<lparr>sampleRateOf = 24000, channels = [[Num 0]]\<rparr> +
     duration \<lparr>sampleRateOf = 24000, channels = [[Num 0]]\<rparr> \<and>
   nextStartTimeRef
     (run (render (mounted []))
        [ServerMessage (audio_delta ''AAA='') (1 / 2),
         ServerMessage (audio_delta ''AAA='') (1 / 2),
         ServerMessage (audio_delta ''AAA='') (1 / 2)] (mounted [])) - 1 / 2 \<noteq>
     js_plus
       (js_plus (duration \<lparr>sampleRateOf = 24000, channels = [[Num 0]]\<rparr>)
          (duration \<lparr>sampleRateOf = 24000, channels = [[Num 0]]\<rparr>))
       (duration \<lparr>sampleRateOf = 24000, channels = [[Num 0]]\<rparr>)"
proof -
  have run: "run (render (mounted []))
        [ServerMessage (audio_delta ''AAA='') (1 / 2),
         ServerMessage (audio_delta ''AAA='') (1 / 2),
         ServerMessage (audio_delta ''AAA='') (1 / 2)] (mounted []) =
      (mounted [])
        \<lparr>audioSourcesRef :=
           [\<lparr>node_id = 0, node_buffer = \<lparr>sampleRateOf = 24000, channels = [[Num 0]]\<rparr>,
              started = True, start_time = 1 / 2\<rparr>,
            \<lparr>node_id = 1, node_buffer = \<lparr>sampleRateOf = 24000, channels = [[Num 0]]\<rparr>,
              started = True, start_time = 1125993731834861 / 2251799813685248\<rparr>,
            \<lparr>node_id = 2, node_buffer = \<lparr>sampleRateOf = 24000, channels = [[Num 0]]\<rparr>,
              started = True, start_time = 563043778413549 / 1125899906842624\<rparr>],
         nextStartTimeRef := 1126181381819335 / 2251799813685248, created_nodes := 3\<rparr>"
    by (simp add: mounted_def live_onmessage_def handle_transcription_def callbacks_onmessage_def
        base64Audio_of_def schedule_audio_def audio_delta_def empty_message_def truthy_def
        decode_payload_AAA duration_one_frame double_eval)
  have sum: "js_plus (js_plus (6148914691236517 / 147573952589676412928)
                (6148914691236517 / 147573952589676412928))
              (6148914691236517 / 147573952589676412928) =
            1152921504606847 / 9223372036854775808"
    by (simp add: double_eval)
  show ?thesis
    unfolding run duration_one_frame sum by (simp add: decode_payload_AAA)
qed

text \<open>
  Claim C4, amended. Three audio deltas arrive, the second and the third before the
  first has finished playing. Each buffer is started at the maximum of the playback clock
  and the current time of the output context (\<open>S1\<close>, \<open>S2\<close>, \<open>S3\<close> below), and the
  playback clock is then the sum of that start and the duration of the buffer, as a
  double. The second buffer starts exactly at the clock the first one left and the third
  at the clock the second one left, and the clock never goes back: the schedule has no
  gap and no overlap. The clock ends at \<open>((S1 + d1) + d2) + d3\<close> with every sum
  rounded, which is within three roundings of \<open>S1 + (d1 + d2 + d3)\<close>.
\<close>

theorem gapless_scheduling:
  assumes refs: "outputAudioContextRef s \<and> outputNodeRef s"
    and m1: "base64Audio_of m1 = Inr (Some b1)" "truthy b1" "decode_payload b1 = Inr buf1"
      "\<not> interrupted m1"
    and m2: "base64Audio_of m2 = Inr (Some b2)" "truthy b2" "decode_payload b2 = Inr buf2"
      "\<not> interrupted m2"
    and m3: "base64Audio_of m3 = Inr (Some b3)" "truthy b3" "decode_payload b3 = Inr buf3"
      "\<not> interrupted m3"
    and t1: "0 \<le> t1"
    and t2: "t2 < js_plus (max (nextStartTimeRef s) t1) (duration buf1)"
    and t3: "t3 < js_plus (max (nextStartTimeRef s) t1) (duration buf1)"
  shows "(let S1 = max (nextStartTimeRef s) t1;
              s1 = run r [ServerMessage m1 t1] s;
              S2 = max (nextStartTimeRef s1) t2;
              s2 = run r [ServerMessage m2 t2] s1;
              S3 = max (nextStartTimeRef s2) t3;
              s3 = run r [ServerMessage m3 t3] s2
          in audioSourcesRef s3 = audioSourcesRef s @
               [\<lparr>node_id = created_nodes s, node_buffer = buf1, started = True,
                 start_time = S1\<rparr>,
                \<lparr>node_id = created_nodes s + 1, node_buffer = buf2, started = True,
                  start_time = S2\<rparr>,
                \<lparr>node_id = created_nodes s + 2, node_buffer = buf3, started = True,
                  start_time = S3\<rparr>] \<and>
             nextStartTimeRef s1 = js_plus S1 (duration buf1) \<and>
             nextStartTimeRef s2 = js_plus S2 (duration buf2) \<and>
             nextStartTimeRef s3 = js_plus S3 (duration buf3) \<and>
             S2 = nextStartTimeRef s1 \<and> S3 = nextStartTimeRef s2 \<and>
             nextStartTimeRef s1 \<le> nextStartTimeRef s2 \<and>
             nextStartTimeRef s2 \<le> nextStartTimeRef s3 \<and>
             nextStartTimeRef s3 =
               js_plus (js_plus (js_plus S1 (duration buf1)) (duration buf2)) (duration buf3) \<and>
             \<bar>nextStartTimeRef s3 - (S1 + (duration buf1 + duration buf2 + duration buf3))\<bar> \<le>
               3 * (nextStartTimeRef s3 / 2 ^ 53 + 1 / 2 ^ 1075) \<and>
             s3 = run r [ServerMessage m1 t1, ServerMessage m2 t2, ServerMessage m3 t3] s)"
proof -
  define S where S: "S = max (nextStartTimeRef s) t1"
  define c1 where "c1 = js_plus S (duration buf1)"
  define c2 where "c2 = js_plus c1 (duration buf2)"
  define c3 where "c3 = js_plus c2 (duration buf3)"
  note d = duration_nonneg[of buf1] duration_nonneg[of buf2] duration_nonneg[of buf3]
  have S0: "0 \<le> S" using S t1 by simp
  have c10: "0 \<le> c1" unfolding c1_def using S0 d(1) by (rule js_plus_nonneg)
  have c12: "c1 \<le> c2" unfolding c1_def c2_def using S0 d(1) d(2) by (rule js_plus_js_plus)
  have c20: "0 \<le> c2" using c10 c12 by simp
  have c23: "c2 \<le> c3" unfolding c2_def c3_def using c10 d(2) d(3) by (rule js_plus_js_plus)
  define s1 where "s1 = scheduled (handle_transcription r m1 s) buf1 S"
  have 1: "live_onmessage r m1 t1 s = (s1, None)"
    unfolding s1_def S by (rule live_onmessage_schedules[OF refs m1]) (use t1 in simp)
  have n1: "nextStartTimeRef s1 = c1" by (simp add: s1_def c1_def)
  have refs1: "outputAudioContextRef s1 \<and> outputNodeRef s1" using refs by (simp add: s1_def)
  have max2: "max (nextStartTimeRef s1) t2 = c1"
    using t2 by (simp add: n1 c1_def S)
  define s2 where "s2 = scheduled (handle_transcription r m2 s1) buf2 c1"
  have 2: "live_onmessage r m2 t2 s1 = (s2, None)"
    unfolding s2_def max2[symmetric]
    by (rule live_onmessage_schedules[OF refs1 m2]) (use max2 c10 in simp)
  have n2: "nextStartTimeRef s2 = c2" by (simp add: s2_def c2_def)
  have refs2: "outputAudioContextRef s2 \<and> outputNodeRef s2" using refs1 by (simp add: s2_def)
  have max3: "max (nextStartTimeRef s2) t3 = c2"
    using t3 c12 by (simp add: n2 c1_def S)
  define s3 where "s3 = scheduled (handle_transcription r m3 s2) buf3 c2"
  have 3: "live_onmessage r m3 t3 s2 = (s3, None)"
    unfolding s3_def max3[symmetric]
    by (rule live_onmessage_schedules[OF refs2 m3]) (use max3 c20 in simp)
  have n3: "nextStartTimeRef s3 = c3" by (simp add: s3_def c3_def)
  have r1: "run r [ServerMessage m1 t1] s = s1" by (simp add: 1)
  have r2: "run r [ServerMessage m2 t2] s1 = s2" by (simp add: 2)
  have r3: "run r [ServerMessage m3 t3] s2 = s3" by (simp add: 3)
  have r123: "run r [ServerMessage m1 t1, ServerMessage m2 t2, ServerMessage m3 t3] s = s3"
    by (simp add: 1 2 3)
  have sources: "audioSourcesRef s3 = audioSourcesRef s @
               [\<lparr>node_id = created_nodes s, node_buffer = buf1, started = True,
                 start_time = S\<rparr>,
                \<lparr>node_id = created_nodes s + 1, node_buffer = buf2, started = True,
                  start_time = c1\<rparr>,
                \<lparr>node_id = created_nodes s + 2, node_buffer = buf3, started = True,
                  start_time = c2\<rparr>]"
    by (simp add: s3_def s2_def s1_def)
  define bound where "bound x = x / 2 ^ 53 + 1 / 2 ^ 1075" for x :: real
  have e1: "\<bar>c1 - (S + duration buf1)\<bar> \<le> bound c1"
    unfolding c1_def bound_def using S0 d(1) by (rule js_plus_error)
  have e2: "\<bar>c2 - (c1 + duration buf2)\<bar> \<le> bound c2"
    unfolding c2_def bound_def using c10 d(2) by (rule js_plus_error)
  have e3: "\<bar>c3 - (c2 + duration buf3)\<bar> \<le> bound c3"
    unfolding c3_def bound_def using c20 d(3) by (rule js_plus_error)
  have "bound c1 \<le> bound c3" "bound c2 \<le> bound c3"
    using c12 c23 by (simp_all add: bound_def divide_right_mono)
  with e1 e2 e3
  have "\<bar>c3 - (S + (duration buf1 + duration buf2 + duration buf3))\<bar> \<le> 3 * bound c3"
    by linarith
  then have err: "\<bar>c3 - (S + (duration buf1 + duration buf2 + duration buf3))\<bar> \<le>
      3 * (c3 / 2 ^ 53 + 1 / 2 ^ 1075)"
    by (simp only: bound_def)
  have chain: "c3 = js_plus (js_plus (js_plus S (duration buf1)) (duration buf2)) (duration buf3)"
    by (simp add: c3_def c2_def c1_def)
  have max2': "max c1 t2 = c1" using max2 by (simp only: n1)
  have max3': "max c2 t3 = c2" using max3 by (simp only: n2)
  show ?thesis
    unfolding Let_def S[symmetric] r1 r2 r3 r123 n1 n2 n3 max2' max3'
    using sources c12 c23 err chain by (simp add: c1_def c2_def c3_def)
qed

theorem gapless_scheduling_witness:
  "map start_time
     (audioSourcesRef
        (run (render (mounted []))
           [ServerMessage (audio_delta ''AAA='') (1 / 2),
            ServerMessage (audio_delta ''AAAAAA=='') (1 / 2),
            ServerMessage (audio_delta ''AAAAAAAA'') (1 / 2)] (mounted []))) =
     [1 / 2, 1125993731834861 / 2251799813685248, 4504725527277339 / 9007199254740992] \<and>
   nextStartTimeRef
     (run (render (mounted []))
        [ServerMessage (audio_delta ''AAA='') (1 / 2),
         ServerMessage (audio_delta ''AAAAAA=='') (1 / 2),
         ServerMessage (audio_delta ''AAAAAAAA'') (1 / 2)] (mounted [])) =
     2252925713592091 / 4503599627370496 \<and>
   js_plus (js_plus (js_plus (1 / 2) (js_divide 1 24000)) (js_divide 2 24000))
     (js_divide 3 24000) = 2252925713592091 / 4503599627370496"
proof -
  define R1 where "R1 = run (render (mounted [])) [ServerMessage (audio_delta ''AAA='') (1 / 2)] (mounted [])"
  define R2 where "R2 = run (render (mounted [])) [ServerMessage (audio_delta ''AAAAAA=='') (1 / 2)] R1"
  define R3 where "R3 = run (render (mounted [])) [ServerMessage (audio_delta ''AAAAAAAA'') (1 / 2)] R2"
  have refs: "outputAudioContextRef (mounted []) \<and> outputNodeRef (mounted [])"
    by (simp add: mounted_def)
  have d: "duration \<lparr>sampleRateOf = 24000, channels = [[Num 0]]\<rparr> = js_divide 1 24000"
    "duration \<lparr>sampleRateOf = 24000, channels = [[Num 0, Num 0]]\<rparr> = js_divide 2 24000"
    "duration \<lparr>sampleRateOf = 24000, channels = [[Num 0, Num 0, Num 0]]\<rparr> = js_divide 3 24000"
    by (simp_all add: duration_def)
  have n: "nextStartTimeRef (mounted []) = 0" "audioSourcesRef (mounted []) = []"
    by (simp_all add: mounted_def)
  have v: "js_plus (1 / 2) (js_divide 1 24000) = 1125993731834861 / 2251799813685248"
    "js_plus (1125993731834861 / 2251799813685248) (js_divide 2 24000) =
       4504725527277339 / 9007199254740992"
    "js_plus (4504725527277339 / 9007199254740992) (js_divide 3 24000) =
       2252925713592091 / 4503599627370496"
    by (simp_all add: double_eval)
  have t: "(1 / 2 :: real) < js_plus (max (nextStartTimeRef (mounted [])) (1 / 2))
      (duration \<lparr>sampleRateOf = 24000, channels = [[Num 0]]\<rparr>)"
    by (simp add: n d v)
  have t0: "(0::real) \<le> 1 / 2" by simp
  have tr: "truthy ''AAA=''" "truthy ''AAAAAA==''" "truthy ''AAAAAAAA''"
    by (simp_all add: truthy_def)
  note g = gapless_scheduling[where r = "render (mounted [])", OF refs
      base64Audio_of_audio_delta tr(1) decode_payload_AAA interrupted_audio_delta
      base64Audio_of_audio_delta tr(2) decode_payload_AAAAAA interrupted_audio_delta
      base64Audio_of_audio_delta tr(3) decode_payload_AAAAAAAA interrupted_audio_delta
      t0 t t, unfolded Let_def, folded R1_def, folded R2_def, folded R3_def]
  from g have flat: "R3 = run (render (mounted []))
        [ServerMessage (audio_delta ''AAA='') (1 / 2),
         ServerMessage (audio_delta ''AAAAAA=='') (1 / 2),
         ServerMessage (audio_delta ''AAAAAAAA'') (1 / 2)] (mounted [])"
    by blast
  from g have k1: "nextStartTimeRef R1 = 1125993731834861 / 2251799813685248"
    by (simp del: run.simps add: flat[symmetric] n d v)
  from g have k2: "nextStartTimeRef R2 = 4504725527277339 / 9007199254740992"
    by (simp del: run.simps add: flat[symmetric] n d v k1)
  from g have k3: "nextStartTimeRef R3 = 2252925713592091 / 4503599627370496"
    by (simp del: run.simps add: flat[symmetric] n d v k1 k2)
  from g have src: "map start_time (audioSourcesRef R3) =
      [1 / 2, 1125993731834861 / 2251799813685248, 4504725527277339 / 9007199254740992]"
    by (simp del: run.simps add: flat[symmetric] n k1 k2)
  from src k3 show ?thesis
    unfolding flat by (simp del: run.simps add: v)
qed

subsection \<open>Interruption\<close>






lemma interruption_fields [simp]:
  "interrupted interruption" "base64Audio_of interruption = Inr None"
  "handle_transcription r interruption s = s"
  by (simp_all add: interruption_def empty_message_def base64Audio_of_def handle_transcription_def)

lemma interrupted_audio_fields [simp]:
  "interrupted (interrupted_audio b)" "base64Audio_of (interrupted_audio b) = Inr (Some b)"
  by (simp_all add: interrupted_audio_def audio_delta_def empty_message_def base64Audio_of_def)




subsection \<open>Failure to decode an audio delta\<close>

text \<open>
  Claim C9 as stated has the decode failure logged. Nothing in the handler catches it:
  in a session that receives an audio delta of three bytes the handler ends with the
  \<^verbatim>\<open>RangeError\<close>, and the code has written nothing to the console.
\<close>

theorem decode_failure_not_logged_counterexample:
  "decode_payload ''AAAA'' = Inl RangeError \<and>
   snd (live_onmessage (render (mounted [])) (audio_delta ''AAAA'') 0
          (voice_session (mounted []) 1 2 [Opened, Connected 7])) = Some RangeError \<and>
   console
     (voice_session (mounted []) 1 2
        [Opened, Connected 7, ServerMessage (audio_delta ''AAAA'') 0]) = []"
  by (simp add: decode_payload_AAAA voice_session_def live_onmessage_def handle_transcription_def
      callbacks_onmessage_def schedule_audio_def audio_delta_def empty_message_def
      base64Audio_of_def truthy_def mounted_def render_def startMic_begin_def onopen_def
      startMic_connected_def)

text \<open>
  Claim C9, amended. When the audio payload of a message fails to decode, the handler
  ends there with that error: the transcriptions of the message have been applied and
  the playback clock clamped, nothing is scheduled, nothing is written to the console,
  no session error is set, and stream, processor, session and the listening flag are as
  before. The next audio delta is scheduled as usual.
\<close>

theorem decode_failure_is_local:
  assumes refs: "outputAudioContextRef s \<and> outputNodeRef s"
    and audio: "base64Audio_of m = Inr (Some b)" "truthy b" "decode_payload b = Inl e"
    and next_audio: "base64Audio_of m' = Inr (Some b')" "truthy b'"
      "decode_payload b' = Inr audioBuffer" "\<not> interrupted m'"
    and t': "0 \<le> t'"
  shows "(let s' = (handle_transcription r m s)\<lparr>nextStartTimeRef := max (nextStartTimeRef s) t\<rparr>
          in live_onmessage r m t s = (s', Some e) \<and>
             console s' = console s \<and> sessionError s' = sessionError s \<and>
             liveSession s' = liveSession s \<and> isListening s' = isListening s \<and>
             micStream s' = micStream s \<and> audioInputProcessor s' = audioInputProcessor s \<and>
             closed_sessions s' = closed_sessions s \<and> stopped_streams s' = stopped_streams s \<and>
             disconnected_processors s' = disconnected_processors s \<and>
             audioSourcesRef s' = audioSourcesRef s \<and> stopped_nodes s' = stopped_nodes s \<and>
             snd (live_onmessage r m' t' s') = None \<and>
             audioSourcesRef (fst (live_onmessage r m' t' s')) =
               audioSourcesRef s @
                 [\<lparr>node_id = created_nodes s, node_buffer = audioBuffer, started = True,
                   start_time = max (max (nextStartTimeRef s) t) t'\<rparr>])"
proof -
  define s' where "s' = (handle_transcription r m s)\<lparr>nextStartTimeRef := max (nextStartTimeRef s) t\<rparr>"
  have run: "live_onmessage r m t s = (s', Some e)"
    using refs audio
    by (simp add: live_onmessage_def callbacks_onmessage_def schedule_audio_def s'_def)
  have frame: "console s' = console s" "sessionError s' = sessionError s"
    "liveSession s' = liveSession s" "isListening s' = isListening s"
    "micStream s' = micStream s" "audioInputProcessor s' = audioInputProcessor s"
    "closed_sessions s' = closed_sessions s" "stopped_streams s' = stopped_streams s"
    "disconnected_processors s' = disconnected_processors s"
    "audioSourcesRef s' = audioSourcesRef s" "stopped_nodes s' = stopped_nodes s"
    "created_nodes s' = created_nodes s"
    "nextStartTimeRef s' = max (nextStartTimeRef s) t"
    by (simp_all add: s'_def)
  have refs': "outputAudioContextRef s' \<and> outputNodeRef s'" using refs by (simp add: s'_def)
  have "live_onmessage r m' t' s' =
          (scheduled (handle_transcription r m' s') audioBuffer (max (nextStartTimeRef s') t'), None)"
    by (rule live_onmessage_schedules[OF refs' next_audio]) (use t' in simp)
  then have nxt: "snd (live_onmessage r m' t' s') = None"
    "audioSourcesRef (fst (live_onmessage r m' t' s')) =
       audioSourcesRef s @
         [\<lparr>node_id = created_nodes s, node_buffer = audioBuffer, started = True,
           start_time = max (max (nextStartTimeRef s) t) t'\<rparr>]"
    by (simp_all add: frame)
  from run frame nxt show ?thesis
    unfolding Let_def s'_def[symmetric] by simp
qed

theorem decode_failure_is_local_witness:
  "live_onmessage (render (mounted [])) (audio_delta ''AAAA'') 3 playing =
     (playing\<lparr>nextStartTimeRef := 3\<rparr>, Some RangeError) \<and>
   liveSession (playing\<lparr>nextStartTimeRef := 3\<rparr>) = Some 7 \<and>
   map start_time
     (audioSourcesRef
        (fst (live_onmessage (render (mounted [])) (audio_delta ''AAA='') 4
               (playing\<lparr>nextStartTimeRef := 3\<rparr>)))) = [0, 4]"
proof -
  have h: "handle_transcription (render (mounted [])) (audio_delta ''AAAA'') playing = playing"
    by (simp add: handle_transcription_def audio_delta_def empty_message_def)
  have m: "max (nextStartTimeRef playing) 3 = 3" using playing_state by simp
  from decode_failure_is_local[where r = "render (mounted [])" and t = 3 and t' = 4,
      OF reachable_refs[OF reachable_playing]
      base64Audio_of_audio_delta _ decode_payload_AAAA
      base64Audio_of_audio_delta _ decode_payload_AAA interrupted_audio_delta]
  show ?thesis
    using playing_state by (simp add: Let_def truthy_def h m)
qed

end
